theory Spec2Isabelle
  imports Complex_Main
begin

section \<open>Text primitives of the interpreter\<close>

text \<open>
  The firmware runs on MicroPython. A Python \<open>str\<close> is modelled as a \<open>string\<close>, one
  \<open>char\<close> per character. \<open>str.strip()\<close> without argument removes the six ASCII whitespace
  characters, \<open>str.lower()\<close> maps \<open>A\<close>..\<open>Z\<close> to \<open>a\<close>..\<open>z\<close> and leaves every other character.
\<close>

definition isspace :: "char \<Rightarrow> bool" where
  "isspace c \<longleftrightarrow> c \<in> {CHR '' '', CHR 0x09, CHR 0x0A, CHR 0x0B, CHR 0x0C, CHR 0x0D}"

definition lstrip :: "string \<Rightarrow> string" where
  "lstrip s = dropWhile isspace s"

definition rstrip :: "string \<Rightarrow> string" where
  "rstrip s = rev (dropWhile isspace (rev s))"

definition strip :: "string \<Rightarrow> string" where
  "strip s = rstrip (lstrip s)"

definition lower_char :: "char \<Rightarrow> char" where
  "lower_char c =
     (case map_of (zip ''ABCDEFGHIJKLMNOPQRSTUVWXYZ'' ''abcdefghijklmnopqrstuvwxyz'') c of
        None \<Rightarrow> c
      | Some d \<Rightarrow> d)"

definition lower :: "string \<Rightarrow> string" where
  "lower s = map lower_char s"

text \<open>
  \<open>s.find(c)\<close> and \<open>s.rfind(c)\<close> for a one-character needle: the lowest, respectively
  highest, index of \<open>c\<close> in \<open>s\<close>, and \<open>-1\<close> when \<open>c\<close> does not occur.
\<close>

definition find_char :: "string \<Rightarrow> char \<Rightarrow> int" where
  "find_char s c = (if c \<in> set s then int (length (takeWhile (\<lambda>x. x \<noteq> c) s)) else - 1)"

definition rfind_char :: "string \<Rightarrow> char \<Rightarrow> int" where
  "rfind_char s c =
     (if c \<in> set s then int (length s) - 1 - int (length (takeWhile (\<lambda>x. x \<noteq> c) (rev s)))
      else - 1)"

text \<open>The slice \<open>s[i:j]\<close> for indices that are not negative (the only ones the source uses).\<close>

definition slice :: "string \<Rightarrow> int \<Rightarrow> int \<Rightarrow> string" where
  "slice s i j = drop (nat i) (take (nat j) s)"

text \<open>\<open>s.replace(a, b)\<close> for one-character \<open>a\<close> and \<open>b\<close>.\<close>

definition replace :: "string \<Rightarrow> char \<Rightarrow> char \<Rightarrow> string" where
  "replace s a b = map (\<lambda>c. if c = a then b else c) s"

text \<open>
  \<open>s.split(sep)\<close> for a one-character separator: the pieces between the separators, in
  order, empty pieces included; \<open>s.split(sep, 1)\<close> cuts at the first separator only.
\<close>

fun split :: "string \<Rightarrow> char \<Rightarrow> string list" where
  "split [] sep = [[]]"
| "split (c # cs) sep =
     (if c = sep then [] # split cs sep
      else (c # hd (split cs sep)) # tl (split cs sep))"

definition split1 :: "string \<Rightarrow> char \<Rightarrow> string list" where
  "split1 s sep =
     (if sep \<in> set s
      then [takeWhile (\<lambda>x. x \<noteq> sep) s, tl (dropWhile (\<lambda>x. x \<noteq> sep) s)]
      else [s])"

text \<open>\<open>sep.join(ps)\<close>, used to say what the pieces of a split are.\<close>

fun join :: "char \<Rightarrow> string list \<Rightarrow> string" where
  "join sep [] = []"
| "join sep [p] = p"
| "join sep (p # q # ps) = p @ sep # join sep (q # ps)"

section \<open>Command parser\<close>

text \<open>
  \<open>_parse_call(line)\<close>: \<open>None\<close> stands for the pair \<open>(None, None)\<close> of the source.
\<close>

definition parse_call :: "string \<Rightarrow> (string \<times> string) option" where
  "parse_call line =
     (if line = [] then None
      else let s = strip line in
        if s = [] then None
        else let l = find_char s CHR ''(''; r = rfind_char s CHR '')'' in
          if l \<le> 0 \<or> r \<le> l then None
          else Some (strip (slice s 0 l), strip (slice s (l + 1) r)))"

text \<open>\<open>_split_args(args_str, maxsplit)\<close>; the default \<open>maxsplit\<close> is \<open>-1\<close>.\<close>

definition split_args :: "string \<Rightarrow> int \<Rightarrow> string list" where
  "split_args args_str maxsplit =
     (if args_str = [] then []
      else let parts = (if maxsplit = 1 then split1 args_str CHR '','' else split args_str CHR '','')
        in map strip (filter (\<lambda>p. strip p \<noteq> []) parts))"

section \<open>Device context and collaborators\<close>

text \<open>
  Every exception the adapters raise themselves is a constructor named after its message.
  \<open>PinError\<close>, \<open>SensorError\<close> and \<open>LcdError\<close> stand for whatever exception a pin
  handle, the sensor driver or the display driver raises.
\<close>

datatype error =
    UNKNOWN_DIGITAL_PIN | UNKNOWN_ANALOG_PIN | UNKNOWN_MODE | UNKNOWN_LEVEL
  | PULSE_TIMEOUT | PULSE_ERROR
  | UNKNOWN_I2C_BUS | LCD_DRIVER_NOT_AVAILABLE | UNKNOWN_LCD_CHANNEL
  | UNKNOWN_DHT_MODULE_TYPE
  | PinError | SensorError | LcdError

datatype pin_mode = IN | OUT

text \<open>A pin handle: its direction and the level last driven through it.\<close>

record pin =
  mode :: pin_mode
  level :: int

record pwm =
  freq :: int
  duty_u16 :: int

text \<open>
  A display handle is the list of the driver calls it has carried out, oldest first; a call
  that raised is not recorded.
\<close>

datatype lcd_call = Clear | Home | Print string | SetCursor int int | SetRgb int int int

text \<open>
  The module-level dictionaries. \<open>'f\<close> is the type of the floats the sensor delivers.
  \<open>LCD_CACHE\<close> holds each created display handle under its bus key.
\<close>

record 'f state =
  DIGITAL_PINS :: "int \<rightharpoonup> pin"
  PWM_CACHE :: "int \<rightharpoonup> pwm"
  LCD_CACHE :: "string \<rightharpoonup> lcd_call list"
  DHT_CACHE :: "(int \<times> int) \<rightharpoonup> ('f \<times> 'f)"

definition ANALOG_PINS :: "int set" where
  "ANALOG_PINS = {0, 1, 2}"

definition I2C_BUSES :: "string set" where
  "I2C_BUSES = {''i2c0'', ''i2c1''}"

text \<open>The state the module starts in: three output pins driven low, empty caches.\<close>

definition init_state :: "'f state" where
  "init_state =
     \<lparr>DIGITAL_PINS = [16 \<mapsto> \<lparr>mode = OUT, level = 0\<rparr>, 18 \<mapsto> \<lparr>mode = OUT, level = 0\<rparr>,
                      20 \<mapsto> \<lparr>mode = OUT, level = 0\<rparr>],
      PWM_CACHE = Map.empty, LCD_CACHE = Map.empty, DHT_CACHE = Map.empty\<rparr>"

text \<open>
  What the builtins and the hardware drivers answer while one command is handled:
  \<^item> \<open>py_int\<close>: the builtin \<open>int\<close> on a token, \<open>None\<close> when it raises;
  \<^item> \<open>str_float\<close>: how \<open>str.format\<close> prints a float;
  \<^item> \<open>init_raises\<close>: \<open>Pin.init\<close> raises (it then changes nothing);
  \<^item> \<open>pin_value\<close>: what \<open>Pin.value()\<close> reads on a GPIO, given the handle's configuration;
  \<^item> \<open>read_u16\<close>: the sample of an analog channel;
  \<^item> \<open>time_pulse_us\<close>: the measured pulse on a GPIO, \<open>None\<close> when the call raises;
  \<^item> \<open>pin_ctor_raises\<close>: \<open>Pin(n, Pin.IN)\<close> raises;
  \<^item> \<open>dht_measure\<close>: \<open>measure()\<close>, \<open>temperature()\<close> and \<open>humidity()\<close> for a pin and
    a module type, the two values already as floats, \<open>None\<close> when any of them raises;
  \<^item> \<open>LCD1602\<close>: the display driver could be imported;
  \<^item> \<open>lcd_raises\<close>: the display driver raises on this call;
  \<^item> \<open>has_set_rgb\<close>: the display handle has a \<open>set_rgb\<close> method.
\<close>

record 'f env =
  py_int :: "string \<Rightarrow> int option"
  str_float :: "'f \<Rightarrow> string"
  init_raises :: bool
  pin_value :: "int \<Rightarrow> pin \<Rightarrow> int"
  read_u16 :: "int \<Rightarrow> int"
  time_pulse_us :: "int \<Rightarrow> int option"
  pin_ctor_raises :: "int \<Rightarrow> bool"
  dht_measure :: "int \<Rightarrow> int \<Rightarrow> ('f \<times> 'f) option"
  LCD1602 :: bool
  lcd_raises :: "lcd_call \<Rightarrow> bool"
  has_set_rgb :: bool

section \<open>Digital and analog access\<close>

definition pinMode :: "'f env \<Rightarrow> 'f state \<Rightarrow> int \<Rightarrow> string \<Rightarrow> (error + unit) \<times> 'f state" where
  "pinMode env st pin_no mode_tok =
     (let m = lower mode_tok in
      if pin_no \<in> ANALOG_PINS then (Inr (), st)
      else case DIGITAL_PINS st pin_no of
        None \<Rightarrow> (Inl UNKNOWN_DIGITAL_PIN, st)
      | Some pin \<Rightarrow>
          if m = ''in'' \<or> m = ''input'' then
            (if init_raises env then (Inl PinError, st)
             else (Inr (), st\<lparr>DIGITAL_PINS := (DIGITAL_PINS st)(pin_no \<mapsto> pin\<lparr>mode := IN\<rparr>)\<rparr>))
          else if m = ''out'' \<or> m = ''output'' then
            (if init_raises env then (Inl PinError, st)
             else (Inr (), st\<lparr>DIGITAL_PINS := (DIGITAL_PINS st)(pin_no \<mapsto> pin\<lparr>mode := OUT\<rparr>)\<rparr>))
          else (Inl UNKNOWN_MODE, st))"

text \<open>
  \<open>digitalWrite\<close>: when \<open>pin.init(mode=Pin.OUT, value=v)\<close> raises, the handler falls back
  to \<open>pin.value(v)\<close>, which sets the level and leaves the direction.
\<close>

definition digitalWrite :: "'f env \<Rightarrow> 'f state \<Rightarrow> int \<Rightarrow> string \<Rightarrow> (error + unit) \<times> 'f state" where
  "digitalWrite env st pin_no value_tok =
     (case DIGITAL_PINS st pin_no of
        None \<Rightarrow> (Inl UNKNOWN_DIGITAL_PIN, st)
      | Some pin \<Rightarrow>
          let token = lower value_tok in
          case (if token = ''high'' then Inr 1 else if token = ''low'' then Inr 0
                else Inl UNKNOWN_LEVEL) of
            Inl e \<Rightarrow> (Inl e, st)
          | Inr v \<Rightarrow>
              let pin' = (if init_raises env then pin\<lparr>level := v\<rparr>
                          else \<lparr>mode = OUT, level = v\<rparr>)
              in (Inr (), st\<lparr>DIGITAL_PINS := (DIGITAL_PINS st)(pin_no \<mapsto> pin')\<rparr>))"

text \<open>\<open>digitalRead\<close>: a failure of \<open>pin.init(mode=Pin.IN)\<close> is swallowed.\<close>

definition digitalRead :: "'f env \<Rightarrow> 'f state \<Rightarrow> int \<Rightarrow> (error + int) \<times> 'f state" where
  "digitalRead env st pin_no =
     (case DIGITAL_PINS st pin_no of
        None \<Rightarrow> (Inl UNKNOWN_DIGITAL_PIN, st)
      | Some pin \<Rightarrow>
          let pin' = (if init_raises env then pin else pin\<lparr>mode := IN\<rparr>);
              v = pin_value env pin_no pin'
          in (Inr (if v \<noteq> 0 then 1 else 0),
              st\<lparr>DIGITAL_PINS := (DIGITAL_PINS st)(pin_no \<mapsto> pin')\<rparr>))"

definition analogRead :: "'f env \<Rightarrow> 'f state \<Rightarrow> int \<Rightarrow> (error + int) \<times> 'f state" where
  "analogRead env st pin_no =
     (if pin_no \<notin> ANALOG_PINS then (Inl UNKNOWN_ANALOG_PIN, st)
      else (Inr (read_u16 env pin_no), st))"

text \<open>
  \<open>analogWrite\<close>: the PWM handle of the pin is taken from the cache, or created with a
  carrier of 1000 Hz and stored; then its duty is set.
\<close>

definition analogWrite :: "'f env \<Rightarrow> 'f state \<Rightarrow> int \<Rightarrow> int \<Rightarrow> (error + unit) \<times> 'f state" where
  "analogWrite env st pin_no val =
     (case DIGITAL_PINS st pin_no of
        None \<Rightarrow> (Inl UNKNOWN_DIGITAL_PIN, st)
      | Some pin \<Rightarrow>
          let p = (case PWM_CACHE st pin_no of
                     None \<Rightarrow> \<lparr>freq = 1000, duty_u16 = 0\<rparr>
                   | Some q \<Rightarrow> q);
              v = val;
              v = (if v < 0 then 0 else v);
              v = (if v > 255 then 255 else v);
              duty = v * 257
          in (Inr (), st\<lparr>PWM_CACHE := (PWM_CACHE st)(pin_no \<mapsto> p\<lparr>duty_u16 := duty\<rparr>)\<rparr>))"

section \<open>Ranging adapter\<close>

text \<open>
  \<open>int(x)\<close> on a float truncates towards zero. The two float operations of the distance
  formula, \<open>duration / 58.0\<close> and \<open>+ 0.5\<close>, are taken exactly, over the reals.
\<close>

definition int_of_float :: "real \<Rightarrow> int" where
  "int_of_float x = (if x < 0 then \<lceil>x\<rceil> else \<lfloor>x\<rfloor>)"

definition ultrasonicRead :: "'f env \<Rightarrow> 'f state \<Rightarrow> int \<Rightarrow> (error + int) \<times> 'f state" where
  "ultrasonicRead env st pin_no =
     (case DIGITAL_PINS st pin_no of
        None \<Rightarrow> (Inl UNKNOWN_DIGITAL_PIN, st)
      | Some pin \<Rightarrow>
          if init_raises env then (Inl PinError, st)
          else
            let st' = st\<lparr>DIGITAL_PINS := (DIGITAL_PINS st)(pin_no \<mapsto> \<lparr>mode = IN, level = 0\<rparr>)\<rparr> in
            case time_pulse_us env pin_no of
              None \<Rightarrow> (Inl PULSE_TIMEOUT, st')
            | Some duration \<Rightarrow>
                if duration \<le> 0 then (Inl PULSE_ERROR, st')
                else let distance_cm = real_of_int duration / 58
                     in (Inr (int_of_float (distance_cm + 1 / 2)), st'))"

section \<open>Display adapter\<close>

text \<open>
  \<open>_get_lcd(key)\<close> answers the bus key under which the handle lives in \<open>LCD_CACHE\<close>; a
  new handle has carried out no call yet.
\<close>

definition get_lcd :: "'f env \<Rightarrow> 'f state \<Rightarrow> string \<Rightarrow> (error + string) \<times> 'f state" where
  "get_lcd env st key =
     (let k = lower key in
      case LCD_CACHE st k of
        Some lcd \<Rightarrow> (Inr k, st)
      | None \<Rightarrow>
          if \<not> LCD1602 env then (Inl LCD_DRIVER_NOT_AVAILABLE, st)
          else if k \<notin> I2C_BUSES then (Inl UNKNOWN_LCD_CHANNEL, st)
          else (Inr k, st\<lparr>LCD_CACHE := (LCD_CACHE st)(k \<mapsto> [])\<rparr>))"

text \<open>One method call on the display handle stored under \<open>k\<close>.\<close>

definition lcd_do :: "'f env \<Rightarrow> 'f state \<Rightarrow> string \<Rightarrow> lcd_call \<Rightarrow> (error + unit) \<times> 'f state" where
  "lcd_do env st k c =
     (if lcd_raises env c then (Inl LcdError, st)
      else (Inr (),
            st\<lparr>LCD_CACHE := (LCD_CACHE st)(k \<mapsto> (case LCD_CACHE st k of
                                                   None \<Rightarrow> [c]
                                                 | Some cs \<Rightarrow> cs @ [c]))\<rparr>))"

definition write_lcd :: "'f env \<Rightarrow> 'f state \<Rightarrow> string \<Rightarrow> string \<Rightarrow> (error + unit) \<times> 'f state" where
  "write_lcd env st name raw_text =
     (case get_lcd env st name of
        (Inl e, st1) \<Rightarrow> (Inl e, st1)
      | (Inr k, st1) \<Rightarrow>
          let text = strip raw_text;
              text = replace (replace text CHR 0x0D CHR '' '') CHR 0x0A CHR '' '';
              text = slice text 0 32;
              line1 = slice text 0 16;
              line2 = slice text 16 32;
              st2 = snd (lcd_do env st1 k Clear)
          in case lcd_do env st2 k Home of
               (Inl e, st3) \<Rightarrow> (Inl e, st3)
             | (Inr u, st3) \<Rightarrow>
                 (case lcd_do env st3 k (Print line1) of
                    (Inl e, st4) \<Rightarrow> (Inl e, st4)
                  | (Inr u, st4) \<Rightarrow>
                      if line2 \<noteq> [] then
                        (case lcd_do env st4 k (SetCursor 0 1) of
                           (Inl e, st5) \<Rightarrow> (Inl e, st5)
                         | (Inr u, st5) \<Rightarrow> lcd_do env st5 k (Print line2))
                      else (Inr (), st4)))"

definition setText :: "'f env \<Rightarrow> 'f state \<Rightarrow> string \<Rightarrow> string \<Rightarrow> (error + unit) \<times> 'f state" where
  "setText env st bus text =
     (let bus_token = lower bus in
      if bus_token = ''0'' \<or> bus_token = ''i2c0'' then write_lcd env st ''i2c0'' text
      else if bus_token = ''1'' \<or> bus_token = ''i2c1'' then write_lcd env st ''i2c1'' text
      else (Inl UNKNOWN_I2C_BUS, st))"

definition setRGB :: "'f env \<Rightarrow> 'f state \<Rightarrow> string \<Rightarrow> int \<Rightarrow> int \<Rightarrow> int \<Rightarrow> (error + unit) \<times> 'f state" where
  "setRGB env st bus r g b =
     (let bus_token = lower bus in
      case (if bus_token = ''0'' \<or> bus_token = ''i2c0'' then Inr ''i2c0''
            else if bus_token = ''1'' \<or> bus_token = ''i2c1'' then Inr ''i2c1''
            else Inl UNKNOWN_I2C_BUS) of
        Inl e \<Rightarrow> (Inl e, st)
      | Inr key \<Rightarrow>
          (case get_lcd env st key of
             (Inl e, st1) \<Rightarrow> (Inl e, st1)
           | (Inr k, st1) \<Rightarrow>
               if has_set_rgb env then lcd_do env st1 k (SetRgb r g b)
               else (Inr (), st1)))"

section \<open>Sensor adapter\<close>

text \<open>
  \<open>dhtRead\<close> builds a fresh pin handle from the raw number, picks the sensor class by
  \<open>module_type\<close>, and only then measures. What the sensor driver does to the pad is not
  part of the device context.
\<close>

definition dhtRead :: "'f env \<Rightarrow> 'f state \<Rightarrow> int \<Rightarrow> int \<Rightarrow> (error + ('f \<times> 'f)) \<times> 'f state" where
  "dhtRead env st pin_no module_type =
     (if pin_ctor_raises env pin_no then (Inl PinError, st)
      else if module_type \<noteq> 0 \<and> module_type \<noteq> 1 then (Inl UNKNOWN_DHT_MODULE_TYPE, st)
      else
        let key = (pin_no, module_type) in
        case dht_measure env pin_no module_type of
          Some (temp, hum) \<Rightarrow>
            (Inr (temp, hum), st\<lparr>DHT_CACHE := (DHT_CACHE st)(key \<mapsto> (temp, hum))\<rparr>)
        | None \<Rightarrow>
            (case DHT_CACHE st key of
               Some v \<Rightarrow> (Inr v, st)
             | None \<Rightarrow> (Inl SensorError, st)))"

section \<open>Command dispatcher\<close>

text \<open>The decimal text of an integer, as \<open>str(int(n))\<close> gives it.\<close>

fun digits :: "nat \<Rightarrow> string" where
  "digits n =
     (if n < 10 then [''0123456789'' ! n]
      else digits (n div 10) @ [''0123456789'' ! (n mod 10)])"

declare digits.simps [simp del]

definition str_int :: "int \<Rightarrow> string" where
  "str_int n = (if n < 0 then CHR ''-'' # digits (nat (- n)) else digits (nat n))"

text \<open>What each \<open>send_*\<close> function writes to the output stream.\<close>

definition send_error :: string where
  "send_error = ''error'' @ [CHR 0x0A]"

definition send_number :: "int \<Rightarrow> string" where
  "send_number n = str_int n @ [CHR 0x0A]"

definition send_two_floats :: "'f env \<Rightarrow> 'f \<Rightarrow> 'f \<Rightarrow> string" where
  "send_two_floats env a b = str_float env a @ '' '' @ str_float env b @ [CHR 0x0A]"

definition send_empty :: string where
  "send_empty = [CHR 0x0A]"

text \<open>
  The branches of \<open>handle_command\<close>, one definition for each \<open>if cmd == ...\<close> block. Each
  answers the text written to the output stream and the device context afterwards.
\<close>

definition cmd_pinmode :: "'f env \<Rightarrow> 'f state \<Rightarrow> string \<Rightarrow> string \<times> 'f state" where
  "cmd_pinmode env st args_str =
     (let parts = split_args args_str (- 1) in
      if length parts \<noteq> 2 then (send_error, st)
      else case py_int env (parts ! 0) of
        None \<Rightarrow> (send_error, st)
      | Some pin_no \<Rightarrow>
          (case pinMode env st pin_no (parts ! 1) of
             (Inl e, st') \<Rightarrow> (send_error, st')
           | (Inr u, st') \<Rightarrow> (send_empty, st')))"

definition cmd_digitalwrite :: "'f env \<Rightarrow> 'f state \<Rightarrow> string \<Rightarrow> string \<times> 'f state" where
  "cmd_digitalwrite env st args_str =
     (let parts = split_args args_str (- 1) in
      if length parts \<noteq> 2 then (send_error, st)
      else case py_int env (parts ! 0) of
        None \<Rightarrow> (send_error, st)
      | Some pin_no \<Rightarrow>
          (case digitalWrite env st pin_no (parts ! 1) of
             (Inl e, st') \<Rightarrow> (send_error, st')
           | (Inr u, st') \<Rightarrow> (send_empty, st')))"

definition cmd_digitalread :: "'f env \<Rightarrow> 'f state \<Rightarrow> string \<Rightarrow> string \<times> 'f state" where
  "cmd_digitalread env st args_str =
     (let parts = split_args args_str (- 1) in
      if length parts \<noteq> 1 then (send_error, st)
      else case py_int env (parts ! 0) of
        None \<Rightarrow> (send_error, st)
      | Some pin_no \<Rightarrow>
          (case digitalRead env st pin_no of
             (Inl e, st') \<Rightarrow> (send_error, st')
           | (Inr v, st') \<Rightarrow> (send_number v, st')))"

definition cmd_analogread :: "'f env \<Rightarrow> 'f state \<Rightarrow> string \<Rightarrow> string \<times> 'f state" where
  "cmd_analogread env st args_str =
     (let parts = split_args args_str (- 1) in
      if length parts \<noteq> 1 then (send_error, st)
      else case py_int env (parts ! 0) of
        None \<Rightarrow> (send_error, st)
      | Some pin_no \<Rightarrow>
          (case analogRead env st pin_no of
             (Inl e, st') \<Rightarrow> (send_error, st')
           | (Inr v, st') \<Rightarrow> (send_number v, st')))"

definition cmd_analogwrite :: "'f env \<Rightarrow> 'f state \<Rightarrow> string \<Rightarrow> string \<times> 'f state" where
  "cmd_analogwrite env st args_str =
     (let parts = split_args args_str (- 1) in
      if length parts \<noteq> 2 then (send_error, st)
      else case (py_int env (parts ! 0), py_int env (parts ! 1)) of
        (Some pin_no, Some val) \<Rightarrow>
          (case analogWrite env st pin_no val of
             (Inl e, st') \<Rightarrow> (send_error, st')
           | (Inr u, st') \<Rightarrow> (send_empty, st'))
      | _ \<Rightarrow> (send_error, st))"

definition cmd_ultrasonicread :: "'f env \<Rightarrow> 'f state \<Rightarrow> string \<Rightarrow> string \<times> 'f state" where
  "cmd_ultrasonicread env st args_str =
     (let parts = split_args args_str (- 1) in
      if length parts \<noteq> 1 then (send_error, st)
      else case py_int env (parts ! 0) of
        None \<Rightarrow> (send_error, st)
      | Some pin_no \<Rightarrow>
          (case ultrasonicRead env st pin_no of
             (Inl e, st') \<Rightarrow> (send_error, st')
           | (Inr distance, st') \<Rightarrow> (send_number distance, st')))"

definition cmd_settext :: "'f env \<Rightarrow> 'f state \<Rightarrow> string \<Rightarrow> string \<times> 'f state" where
  "cmd_settext env st args_str =
     (let parts = split_args args_str 1 in
      if length parts \<noteq> 2 then (send_error, st)
      else let bus_token = lower (parts ! 0) in
        if \<not> (bus_token = ''0'' \<or> bus_token = ''i2c0'' \<or> bus_token = ''1'' \<or> bus_token = ''i2c1'')
        then (send_error, st)
        else case setText env st bus_token (parts ! 1) of
               (Inl e, st') \<Rightarrow> (send_error, st')
             | (Inr u, st') \<Rightarrow> (send_empty, st'))"

definition cmd_setrgb :: "'f env \<Rightarrow> 'f state \<Rightarrow> string \<Rightarrow> string \<times> 'f state" where
  "cmd_setrgb env st args_str =
     (let parts = split_args args_str (- 1) in
      if length parts \<noteq> 4 then (send_error, st)
      else let bus_token = lower (parts ! 0) in
        if \<not> (bus_token = ''0'' \<or> bus_token = ''i2c0'' \<or> bus_token = ''1'' \<or> bus_token = ''i2c1'')
        then (send_error, st)
        else case (py_int env (parts ! 1), py_int env (parts ! 2), py_int env (parts ! 3)) of
          (Some r, Some g, Some b) \<Rightarrow>
            (case setRGB env st bus_token r g b of
               (Inl e, st') \<Rightarrow> (send_error, st')
             | (Inr u, st') \<Rightarrow> (send_empty, st'))
        | _ \<Rightarrow> (send_error, st))"

definition cmd_dhtread :: "'f env \<Rightarrow> 'f state \<Rightarrow> string \<Rightarrow> string \<times> 'f state" where
  "cmd_dhtread env st args_str =
     (let parts = split_args args_str (- 1) in
      if length parts \<noteq> 2 then (send_error, st)
      else case (py_int env (parts ! 0), py_int env (parts ! 1)) of
        (Some pin_no, Some module_type) \<Rightarrow>
          (case dhtRead env st pin_no module_type of
             (Inl e, st') \<Rightarrow> (send_error, st')
           | (Inr (temp, hum), st') \<Rightarrow> (send_two_floats env temp hum, st'))
      | _ \<Rightarrow> (send_error, st))"

definition handle_command :: "'f env \<Rightarrow> 'f state \<Rightarrow> string \<Rightarrow> string \<times> 'f state" where
  "handle_command env st line =
     (case parse_call line of
        None \<Rightarrow> (send_error, st)
      | Some (name, args_str) \<Rightarrow>
          if name = [] then (send_error, st)
          else let cmd = lower name in
            if cmd = ''pinmode'' then cmd_pinmode env st args_str
            else if cmd = ''digitalwrite'' then cmd_digitalwrite env st args_str
            else if cmd = ''digitalread'' then cmd_digitalread env st args_str
            else if cmd = ''analogread'' then cmd_analogread env st args_str
            else if cmd = ''analogwrite'' then cmd_analogwrite env st args_str
            else if cmd = ''ultrasonicread'' then cmd_ultrasonicread env st args_str
            else if cmd = ''settext'' then cmd_settext env st args_str
            else if cmd = ''setrgb'' then cmd_setrgb env st args_str
            else if cmd = ''dhtread'' then cmd_dhtread env st args_str
            else (send_error, st))"

text \<open>
  A reference reader of plain decimal tokens (an optional sign, then digits), used as
  \<open>py_int\<close> where a concrete command line is run, and a device whose drivers never raise.
\<close>

fun nat_of_digits :: "string \<Rightarrow> nat \<Rightarrow> nat option" where
  "nat_of_digits [] acc = Some acc"
| "nat_of_digits (c # cs) acc =
     (case map_of (zip ''0123456789'' [0..<10]) c of
        None \<Rightarrow> None
      | Some d \<Rightarrow> nat_of_digits cs (10 * acc + d))"

definition int_of_decimal :: "string \<Rightarrow> int option" where
  "int_of_decimal tok =
     (case tok of
        [] \<Rightarrow> None
      | c # cs \<Rightarrow>
          if c = CHR ''-'' then (if cs = [] then None
                                 else map_option (\<lambda>n. - int n) (nat_of_digits cs 0))
          else if c = CHR ''+'' then (if cs = [] then None
                                      else map_option int (nat_of_digits cs 0))
          else map_option int (nat_of_digits tok 0))"

definition quiet_env :: "int env" where
  "quiet_env =
     \<lparr>py_int = int_of_decimal, str_float = (\<lambda>x. str_int x @ ''.0''), init_raises = False,
      pin_value = (\<lambda>n p. level p), read_u16 = (\<lambda>n. 0), time_pulse_us = (\<lambda>n. Some 580),
      pin_ctor_raises = (\<lambda>n. False), dht_measure = (\<lambda>n t. Some (21, 40)),
      LCD1602 = True, lcd_raises = (\<lambda>c. False), has_set_rgb = True\<rparr>"

text \<open>
  A device whose digital lines are held low from outside: a handle in output direction reads
  the level it drives, a handle in input direction reads 0.
\<close>

definition low_line_env :: "int env" where
  "low_line_env = quiet_env\<lparr>pin_value := (\<lambda>n p. if mode p = OUT then level p else 0)\<rparr>"

text \<open>A sensor that fails to measure, and one that measures another pair.\<close>

definition failing_sensor_env :: "int env" where
  "failing_sensor_env = quiet_env\<lparr>dht_measure := (\<lambda>n t. None)\<rparr>"

definition warm_sensor_env :: "int env" where
  "warm_sensor_env = quiet_env\<lparr>dht_measure := (\<lambda>n t. Some (22, 41))\<rparr>"

section \<open>Histories of sensor calls\<close>

text \<open>
  A call of \<open>dhtRead\<close> is given by what the collaborators answer during it, the pin
  number and the module type. \<open>dht_calls\<close> runs a list of calls, oldest first.
\<close>

type_synonym 'f dht_call = "'f env \<times> int \<times> int"

fun dht_calls :: "'f state \<Rightarrow> 'f dht_call list \<Rightarrow> 'f state" where
  "dht_calls st [] = st"
| "dht_calls st ((env, pin_no, module_type) # cs) =
     dht_calls (snd (dhtRead env st pin_no module_type)) cs"

text \<open>
  In the words of the specification: the pair a call measures, \<open>None\<close> when its measurement
  fails or is never attempted; and the pair of the most recent call for a key that measured
  one.
\<close>

definition measured :: "'f dht_call \<Rightarrow> ('f \<times> 'f) option" where
  "measured c =
     (case c of (env, pin_no, module_type) \<Rightarrow>
        if \<not> pin_ctor_raises env pin_no \<and> (module_type = 0 \<or> module_type = 1)
        then dht_measure env pin_no module_type else None)"

fun last_success :: "'f dht_call list \<Rightarrow> (int \<times> int) \<Rightarrow> ('f \<times> 'f) option" where
  "last_success [] key = None"
| "last_success (c # cs) key =
     (case last_success cs key of
        Some v \<Rightarrow> Some v
      | None \<Rightarrow> if snd c = key then measured c else None)"

section \<open>What a display handle has shown\<close>

text \<open>The calls carried out so far by the display handle of a bus, none when there is no handle.\<close>

definition lcd_trace :: "'f state \<Rightarrow> string \<Rightarrow> lcd_call list" where
  "lcd_trace st k = (case LCD_CACHE st k of None \<Rightarrow> [] | Some cs \<Rightarrow> cs)"

text \<open>
  In the words of the specification: the display text of a raw text is the raw text trimmed,
  with every carriage return and line feed replaced by a space, cut after 32 characters.
\<close>

definition lcd_text :: "string \<Rightarrow> string" where
  "lcd_text raw_text =
     take 32 (map (\<lambda>c. if c = CHR 0x0D \<or> c = CHR 0x0A then CHR '' '' else c) (strip raw_text))"

section \<open>Vocabulary of the parser's specification\<close>

text \<open>
  In the words of the specification: the text before the first occurrence of a character,
  the text after its first occurrence, the text before its last occurrence, and texts made
  of whitespace only.
\<close>

definition before_first :: "char \<Rightarrow> string \<Rightarrow> string" where
  "before_first c s = takeWhile (\<lambda>x. x \<noteq> c) s"

definition after_first :: "char \<Rightarrow> string \<Rightarrow> string" where
  "after_first c s = tl (dropWhile (\<lambda>x. x \<noteq> c) s)"

definition before_last :: "char \<Rightarrow> string \<Rightarrow> string" where
  "before_last c s = rev (after_first c (rev s))"

definition blank :: "string \<Rightarrow> bool" where
  "blank s \<longleftrightarrow> (\<forall>c \<in> set s. isspace c)"

section \<open>Vocabulary of the dispatcher's specification\<close>

text \<open>
  In the words of the specification: the number of arguments each recognized command takes
  (\<open>None\<close> for an unrecognized name), the positions of its integer arguments, the pieces
  its argument string is split into, and whether the adapter operation invoked on those
  pieces raises.
\<close>

definition arity :: "string \<Rightarrow> nat option" where
  "arity cmd =
     map_of [(''pinmode'', 2), (''digitalwrite'', 2), (''digitalread'', 1), (''analogread'', 1),
             (''analogwrite'', 2), (''ultrasonicread'', 1), (''settext'', 2), (''setrgb'', 4),
             (''dhtread'', 2)] cmd"

definition int_args :: "string \<Rightarrow> nat list" where
  "int_args cmd =
     (case map_of [(''pinmode'', [0]), (''digitalwrite'', [0]), (''digitalread'', [0]),
                   (''analogread'', [0]), (''analogwrite'', [0, 1]), (''ultrasonicread'', [0]),
                   (''settext'', []), (''setrgb'', [1, 2, 3]), (''dhtread'', [0, 1])] cmd of
        None \<Rightarrow> []
      | Some ps \<Rightarrow> ps)"

definition pieces :: "string \<Rightarrow> string \<Rightarrow> string list" where
  "pieces cmd args_str = split_args args_str (if cmd = ''settext'' then 1 else - 1)"

definition adapter_raises :: "'f env \<Rightarrow> 'f state \<Rightarrow> string \<Rightarrow> string list \<Rightarrow> bool" where
  "adapter_raises env st cmd parts =
     (if cmd = ''pinmode'' then
        (case py_int env (parts ! 0) of
           Some p \<Rightarrow> isl (fst (pinMode env st p (parts ! 1))) | None \<Rightarrow> False)
      else if cmd = ''digitalwrite'' then
        (case py_int env (parts ! 0) of
           Some p \<Rightarrow> isl (fst (digitalWrite env st p (parts ! 1))) | None \<Rightarrow> False)
      else if cmd = ''digitalread'' then
        (case py_int env (parts ! 0) of
           Some p \<Rightarrow> isl (fst (digitalRead env st p)) | None \<Rightarrow> False)
      else if cmd = ''analogread'' then
        (case py_int env (parts ! 0) of
           Some p \<Rightarrow> isl (fst (analogRead env st p)) | None \<Rightarrow> False)
      else if cmd = ''analogwrite'' then
        (case (py_int env (parts ! 0), py_int env (parts ! 1)) of
           (Some p, Some v) \<Rightarrow> isl (fst (analogWrite env st p v)) | _ \<Rightarrow> False)
      else if cmd = ''ultrasonicread'' then
        (case py_int env (parts ! 0) of
           Some p \<Rightarrow> isl (fst (ultrasonicRead env st p)) | None \<Rightarrow> False)
      else if cmd = ''settext'' then
        isl (fst (setText env st (lower (parts ! 0)) (parts ! 1)))
      else if cmd = ''setrgb'' then
        (case (py_int env (parts ! 1), py_int env (parts ! 2), py_int env (parts ! 3)) of
           (Some r, Some g, Some b) \<Rightarrow> isl (fst (setRGB env st (lower (parts ! 0)) r g b))
         | _ \<Rightarrow> False)
      else if cmd = ''dhtread'' then
        (case (py_int env (parts ! 0), py_int env (parts ! 1)) of
           (Some p, Some t) \<Rightarrow> isl (fst (dhtRead env st p t)) | _ \<Rightarrow> False)
      else False)"

section \<open>PWM output\<close>

text \<open>
  Claim C4. For every recognized digital pin \<open>P\<close> and every integer \<open>v\<close>, \<open>analogWrite(P, v)\<close>
  does not raise and leaves the PWM handle of \<open>P\<close> with duty \<open>257 * clamp(v, 0, 255)\<close>, a
  value between 0 and 65535 (0 for 0, 65535 for 255), the carrier being 1000 Hz on a handle
  it created; and the whole outcome, result and device context, is the one of
  \<open>analogWrite(P, clamp(v, 0, 255))\<close>.
\<close>

theorem analogWrite_clamps:
  assumes "P \<in> dom (DIGITAL_PINS st)"
  shows "fst (analogWrite env st P v) = Inr ()
    \<and> (\<exists>p. PWM_CACHE (snd (analogWrite env st P v)) P = Some p
           \<and> duty_u16 p = 257 * max 0 (min 255 v)
           \<and> 0 \<le> duty_u16 p \<and> duty_u16 p \<le> 65535
           \<and> (v = 0 \<longrightarrow> duty_u16 p = 0) \<and> (v = 255 \<longrightarrow> duty_u16 p = 65535)
           \<and> (PWM_CACHE st P = None \<longrightarrow> freq p = 1000))
    \<and> analogWrite env st P v = analogWrite env st P (max 0 (min 255 v))"
  using assms by (auto simp: analogWrite_def Let_def max_def min_def split: option.splits)

theorem analogWrite_clamps_witness:
  "16 \<in> dom (DIGITAL_PINS (init_state :: int state))
   \<and> analogWrite quiet_env init_state 16 500 = analogWrite quiet_env init_state 16 255
   \<and> fst (analogWrite quiet_env init_state 16 500) = Inr ()
   \<and> map_option duty_u16 (PWM_CACHE (snd (analogWrite quiet_env init_state 16 500)) 16)
       = Some 65535"
  using analogWrite_clamps [of 16 "init_state :: int state" quiet_env 500]
  by (auto simp: init_state_def)

section \<open>Ranging\<close>

lemma round_half_up_div:
  fixes d :: int
  shows "\<lfloor>real_of_int d / 58 + 1 / 2\<rfloor> = (d + 29) div 58"
proof -
  have "real_of_int d / 58 + 1 / 2 = real_of_int (d + 29) / real_of_int 58"
    by simp
  then show ?thesis
    by (simp only: floor_divide_of_int_eq)
qed

lemma ultrasonicRead_result:
  assumes "P \<in> dom (DIGITAL_PINS st)" and "\<not> init_raises env"
  shows "fst (ultrasonicRead env st P) =
           (case time_pulse_us env P of
              None \<Rightarrow> Inl PULSE_TIMEOUT
            | Some d \<Rightarrow> if d \<le> 0 then Inl PULSE_ERROR
                        else Inr \<lfloor>real_of_int d / 58 + 1 / 2\<rfloor>)"
  using assms
  by (auto simp: ultrasonicRead_def Let_def int_of_float_def split: option.splits)

text \<open>
  Claim C3. For every recognized digital pin whose handle can be configured: when the pulse
  measurement raises, or gives a duration that is zero or negative, \<open>ultrasonicRead\<close> fails;
  when it gives a positive duration \<open>d\<close>, \<open>ultrasonicRead\<close> returns the truncation of
  \<open>d / 58 + 1/2\<close>, which is \<open>d / 58\<close> rounded to the nearest integer with halves going
  up (the integer \<open>n\<close> with \<open>n - 1/2 \<le> d / 58 < n + 1/2\<close>).
\<close>

theorem ultrasonicRead_round_half_up:
  assumes "P \<in> dom (DIGITAL_PINS st)" and "\<not> init_raises env"
  shows "(time_pulse_us env P = None \<longrightarrow> fst (ultrasonicRead env st P) = Inl PULSE_TIMEOUT)
    \<and> (\<forall>d. time_pulse_us env P = Some d \<longrightarrow>
          (d \<le> 0 \<longrightarrow> fst (ultrasonicRead env st P) = Inl PULSE_ERROR)
        \<and> (0 < d \<longrightarrow>
             (\<exists>n. fst (ultrasonicRead env st P) = Inr n
                \<and> n = int_of_float (real_of_int d / 58 + 1 / 2)
                \<and> n = (d + 29) div 58
                \<and> real_of_int n - 1 / 2 \<le> real_of_int d / 58
                \<and> real_of_int d / 58 < real_of_int n + 1 / 2)))"
proof (intro conjI allI impI)
  assume "time_pulse_us env P = None"
  then show "fst (ultrasonicRead env st P) = Inl PULSE_TIMEOUT"
    using assms by (simp add: ultrasonicRead_result)
next
  fix d
  assume "time_pulse_us env P = Some d" and "d \<le> 0"
  then show "fst (ultrasonicRead env st P) = Inl PULSE_ERROR"
    using assms by (simp add: ultrasonicRead_result)
next
  fix d
  assume d: "time_pulse_us env P = Some d" "0 < d"
  define n where "n = \<lfloor>real_of_int d / 58 + 1 / 2\<rfloor>"
  have "fst (ultrasonicRead env st P) = Inr n"
    using assms d by (simp add: ultrasonicRead_result n_def)
  moreover have "n = int_of_float (real_of_int d / 58 + 1 / 2)"
    using d by (simp add: int_of_float_def n_def)
  moreover have "n = (d + 29) div 58"
    unfolding n_def by (rule round_half_up_div)
  moreover have "real_of_int n - 1 / 2 \<le> real_of_int d / 58"
    unfolding n_def by linarith
  moreover have "real_of_int d / 58 < real_of_int n + 1 / 2"
    unfolding n_def by linarith
  ultimately show "\<exists>n. fst (ultrasonicRead env st P) = Inr n
                \<and> n = int_of_float (real_of_int d / 58 + 1 / 2)
                \<and> n = (d + 29) div 58
                \<and> real_of_int n - 1 / 2 \<le> real_of_int d / 58
                \<and> real_of_int d / 58 < real_of_int n + 1 / 2"
    by blast
qed

theorem ultrasonicRead_round_half_up_witness:
  "16 \<in> dom (DIGITAL_PINS (init_state :: int state)) \<and> \<not> init_raises quiet_env
   \<and> time_pulse_us quiet_env 16 = Some 580
   \<and> fst (ultrasonicRead quiet_env init_state 16) = Inr 10
   \<and> fst (ultrasonicRead (quiet_env\<lparr>time_pulse_us := (\<lambda>n. Some 0)\<rparr>) init_state 16)
       = Inl PULSE_ERROR"
  using ultrasonicRead_round_half_up [of 16 "init_state :: int state" quiet_env]
    ultrasonicRead_round_half_up [of 16 "init_state :: int state"
      "quiet_env\<lparr>time_pulse_us := (\<lambda>n. Some 0)\<rparr>"]
  by (auto simp: init_state_def quiet_env_def)

section \<open>Digital write followed by digital read\<close>

lemma digitalWrite_level:
  assumes "DIGITAL_PINS st P = Some pin"
    and "lower tok = ''high'' \<and> v = 1 \<or> lower tok = ''low'' \<and> v = 0"
  shows "digitalWrite env st P tok =
           (Inr (), st\<lparr>DIGITAL_PINS := (DIGITAL_PINS st)(P \<mapsto>
              (if init_raises env then pin\<lparr>level := v\<rparr> else \<lparr>mode = OUT, level = v\<rparr>))\<rparr>)"
  using assms by (auto simp: digitalWrite_def Let_def)

lemma digitalRead_sample:
  assumes "DIGITAL_PINS st P = Some pin"
  shows "digitalRead env st P =
           (Inr (if pin_value env P (if init_raises env then pin else pin\<lparr>mode := IN\<rparr>) \<noteq> 0
                 then 1 else 0),
            st\<lparr>DIGITAL_PINS := (DIGITAL_PINS st)(P \<mapsto>
              (if init_raises env then pin else pin\<lparr>mode := IN\<rparr>))\<rparr>)"
  using assms by (simp add: digitalRead_def Let_def)

text \<open>
  Claim C8, as stated, fails: \<open>digitalRead\<close> switches the handle to input before it samples,
  so it answers the level present on the line and not the level written before. On a device
  whose line is held low, \<open>digitalWrite(16, "HIGH")\<close> followed by \<open>digitalRead(16)\<close> does
  not return 1.
\<close>

theorem digitalRead_after_high_counterexample:
  "fst (digitalRead low_line_env (snd (digitalWrite low_line_env init_state 16 ''HIGH'')) 16)
     \<noteq> Inr 1"
  by (simp add: digitalRead_def digitalWrite_def low_line_env_def quiet_env_def init_state_def
      lower_def lower_char_def Let_def)

text \<open>
  Claim C8, amended. For every recognized digital pin \<open>P\<close> and every level token that is
  \<open>high\<close> (\<open>v = 1\<close>) or \<open>low\<close> (\<open>v = 0\<close>) up to case: \<open>digitalWrite(P, token)\<close> succeeds and
  leaves the handle \<open>p1\<close> driving \<open>v\<close>, in output direction unless \<open>Pin.init\<close> raised; a
  following \<open>digitalRead(P)\<close> succeeds, leaves the handle \<open>p2\<close> in input direction unless
  \<open>Pin.init\<close> raised, and returns 1 when the level the driver samples on \<open>p2\<close> is not zero
  and 0 otherwise. Where \<open>Pin.init\<close> raised, the direction of the handle stays as it was. It returns the written \<open>v\<close> exactly when that sample is non-zero for
  \<open>v = 1\<close> and zero for \<open>v = 0\<close>.
\<close>

theorem digitalWrite_then_digitalRead:
  assumes "DIGITAL_PINS st P = Some pin"
    and "lower tok = ''high'' \<and> v = 1 \<or> lower tok = ''low'' \<and> v = 0"
    and "p1 = (if init_raises env then pin\<lparr>level := v\<rparr> else \<lparr>mode = OUT, level = v\<rparr>)"
    and "p2 = (if init_raises env' then p1 else p1\<lparr>mode := IN\<rparr>)"
    and "st1 = snd (digitalWrite env st P tok)"
  shows "fst (digitalWrite env st P tok) = Inr ()
          \<and> DIGITAL_PINS st1 P = Some p1
          \<and> fst (digitalRead env' st1 P) = Inr (if pin_value env' P p2 \<noteq> 0 then 1 else 0)
          \<and> DIGITAL_PINS (snd (digitalRead env' st1 P)) P = Some p2
          \<and> (fst (digitalRead env' st1 P) = Inr v \<longleftrightarrow> (pin_value env' P p2 \<noteq> 0 \<longleftrightarrow> v = 1))
          \<and> level p1 = v \<and> level p2 = v
          \<and> mode p1 = (if init_raises env then mode pin else OUT)
          \<and> mode p2 = (if init_raises env' then mode p1 else IN)"
proof -
  have w: "digitalWrite env st P tok =
      (Inr (), st\<lparr>DIGITAL_PINS := (DIGITAL_PINS st)(P \<mapsto> p1)\<rparr>)"
    using digitalWrite_level [OF assms(1,2)] assms(3) by simp
  have s1: "DIGITAL_PINS st1 P = Some p1"
    using w assms(5) by simp
  have r: "digitalRead env' st1 P =
      (Inr (if pin_value env' P p2 \<noteq> 0 then 1 else 0),
       st1\<lparr>DIGITAL_PINS := (DIGITAL_PINS st1)(P \<mapsto> p2)\<rparr>)"
    using digitalRead_sample [OF s1] assms(4) by simp
  have v: "v = 0 \<or> v = 1"
    using assms(2) by blast
  have d: "level p1 = v" "level p2 = v"
    "mode p1 = (if init_raises env then mode pin else OUT)"
    "mode p2 = (if init_raises env' then mode p1 else IN)"
    using assms(3,4) by simp_all
  show ?thesis
    using w s1 r v d by auto
qed

theorem digitalWrite_then_digitalRead_witness:
  "DIGITAL_PINS (init_state :: int state) 16 = Some \<lparr>mode = OUT, level = 0\<rparr>
   \<and> lower ''HIGH'' = ''high''
   \<and> fst (digitalRead quiet_env (snd (digitalWrite quiet_env init_state 16 ''HIGH'')) 16) = Inr 1"
  using digitalWrite_then_digitalRead [of "init_state :: int state" 16
     "\<lparr>mode = OUT, level = 0\<rparr>" "''HIGH''" 1 "\<lparr>mode = OUT, level = 1\<rparr>" quiet_env
     "\<lparr>mode = IN, level = 1\<rparr>" quiet_env "snd (digitalWrite quiet_env init_state 16 ''HIGH'')"]
  by (simp add: init_state_def quiet_env_def lower_def lower_char_def)

section \<open>Sensor adapter: pin handling and the last-good-value cache\<close>

lemma dhtRead_pins_irrelevant:
  "dhtRead env (st\<lparr>DIGITAL_PINS := pins\<rparr>) pin_no module_type
       = (fst (dhtRead env st pin_no module_type),
          (snd (dhtRead env st pin_no module_type))\<lparr>DIGITAL_PINS := pins\<rparr>)"
  by (simp add: dhtRead_def Let_def split: option.splits)

lemma unknown_pin_rejected:
  assumes "pin_no \<notin> dom (DIGITAL_PINS st)"
  shows "fst (digitalWrite env st pin_no tok) = Inl UNKNOWN_DIGITAL_PIN"
    and "fst (digitalRead env st pin_no) = Inl UNKNOWN_DIGITAL_PIN"
    and "fst (analogWrite env st pin_no v) = Inl UNKNOWN_DIGITAL_PIN"
    and "fst (ultrasonicRead env st pin_no) = Inl UNKNOWN_DIGITAL_PIN"
    and "pin_no \<notin> ANALOG_PINS \<Longrightarrow> fst (pinMode env st pin_no tok) = Inl UNKNOWN_DIGITAL_PIN"
  using assms
  by (auto simp: digitalWrite_def digitalRead_def analogWrite_def ultrasonicRead_def
        pinMode_def Let_def domIff)

text \<open>
  Claim C10. For every integer pin number, \<open>dhtRead\<close> never fails with the unknown-pin
  error and its outcome does not depend on the digital-pin registry at all; once the fresh
  handle is built, the only validation is that of \<open>module_type\<close>, rejected exactly when it
  is neither 0 nor 1, and a successful measurement is returned whatever the pin number. The
  other pin-taking operations reject a pin outside the registry with the unknown-pin error
  (\<open>pinMode\<close> unless the pin is an analog channel).
\<close>

theorem dhtRead_no_pin_validation:
  "fst (dhtRead env st pin_no module_type) \<noteq> Inl UNKNOWN_DIGITAL_PIN
   \<and> dhtRead env (st\<lparr>DIGITAL_PINS := pins\<rparr>) pin_no module_type
       = (fst (dhtRead env st pin_no module_type),
          (snd (dhtRead env st pin_no module_type))\<lparr>DIGITAL_PINS := pins\<rparr>)
   \<and> (\<not> pin_ctor_raises env pin_no \<longrightarrow>
        (fst (dhtRead env st pin_no module_type) = Inl UNKNOWN_DHT_MODULE_TYPE
           \<longleftrightarrow> module_type \<noteq> 0 \<and> module_type \<noteq> 1))
   \<and> (\<not> pin_ctor_raises env pin_no \<and> (module_type = 0 \<or> module_type = 1)
        \<and> dht_measure env pin_no module_type = Some r
        \<longrightarrow> fst (dhtRead env st pin_no module_type) = Inr r)
   \<and> (pin_no \<notin> dom (DIGITAL_PINS st) \<longrightarrow>
         fst (digitalWrite env st pin_no tok) = Inl UNKNOWN_DIGITAL_PIN
       \<and> fst (digitalRead env st pin_no) = Inl UNKNOWN_DIGITAL_PIN
       \<and> fst (analogWrite env st pin_no v) = Inl UNKNOWN_DIGITAL_PIN
       \<and> fst (ultrasonicRead env st pin_no) = Inl UNKNOWN_DIGITAL_PIN
       \<and> (pin_no \<notin> ANALOG_PINS \<longrightarrow>
            fst (pinMode env st pin_no tok) = Inl UNKNOWN_DIGITAL_PIN))"
proof (intro conjI)
  show "fst (dhtRead env st pin_no module_type) \<noteq> Inl UNKNOWN_DIGITAL_PIN"
    by (simp add: dhtRead_def Let_def split: option.splits)
  show "dhtRead env (st\<lparr>DIGITAL_PINS := pins\<rparr>) pin_no module_type
       = (fst (dhtRead env st pin_no module_type),
          (snd (dhtRead env st pin_no module_type))\<lparr>DIGITAL_PINS := pins\<rparr>)"
    by (rule dhtRead_pins_irrelevant)
  show "\<not> pin_ctor_raises env pin_no \<longrightarrow>
        (fst (dhtRead env st pin_no module_type) = Inl UNKNOWN_DHT_MODULE_TYPE
           \<longleftrightarrow> module_type \<noteq> 0 \<and> module_type \<noteq> 1)"
    by (simp add: dhtRead_def Let_def split: option.splits)
  show "\<not> pin_ctor_raises env pin_no \<and> (module_type = 0 \<or> module_type = 1)
        \<and> dht_measure env pin_no module_type = Some r
        \<longrightarrow> fst (dhtRead env st pin_no module_type) = Inr r"
    by (auto simp: dhtRead_def Let_def split: option.splits)
  show "pin_no \<notin> dom (DIGITAL_PINS st) \<longrightarrow>
         fst (digitalWrite env st pin_no tok) = Inl UNKNOWN_DIGITAL_PIN
       \<and> fst (digitalRead env st pin_no) = Inl UNKNOWN_DIGITAL_PIN
       \<and> fst (analogWrite env st pin_no v) = Inl UNKNOWN_DIGITAL_PIN
       \<and> fst (ultrasonicRead env st pin_no) = Inl UNKNOWN_DIGITAL_PIN
       \<and> (pin_no \<notin> ANALOG_PINS \<longrightarrow>
            fst (pinMode env st pin_no tok) = Inl UNKNOWN_DIGITAL_PIN)"
    using unknown_pin_rejected [of pin_no st] by blast
qed

theorem dhtRead_no_pin_validation_witness:
  "99 \<notin> dom (DIGITAL_PINS (init_state :: int state))
   \<and> \<not> pin_ctor_raises quiet_env 99
   \<and> fst (dhtRead quiet_env init_state 99 1) = Inr (21, 40)
   \<and> fst (digitalRead quiet_env init_state 99) = Inl UNKNOWN_DIGITAL_PIN
   \<and> fst (dhtRead quiet_env init_state 99 2) = Inl UNKNOWN_DHT_MODULE_TYPE"
  using dhtRead_no_pin_validation [of quiet_env "init_state :: int state" 99 1
      "DIGITAL_PINS init_state" "(21, 40)" "[]" 0]
    dhtRead_no_pin_validation [of quiet_env "init_state :: int state" 99 2
      "DIGITAL_PINS init_state" "(21, 40)" "[]" 0]
  by (simp add: init_state_def quiet_env_def)

lemma dht_step_cache:
  "DHT_CACHE (snd (dhtRead env st p t)) key =
     (if (p, t) = key \<and> measured (env, p, t) \<noteq> None then measured (env, p, t)
      else DHT_CACHE st key)"
  by (auto simp: dhtRead_def measured_def Let_def split: option.splits)

lemma dht_calls_cache:
  "DHT_CACHE (dht_calls st cs) key =
     (case last_success cs key of Some v \<Rightarrow> Some v | None \<Rightarrow> DHT_CACHE st key)"
proof (induction cs arbitrary: st)
  case Nil
  show ?case by simp
next
  case (Cons c cs)
  obtain env p t where c: "c = (env, p, t)"
    by (cases c) auto
  show ?case
    using Cons.IH [of "snd (dhtRead env st p t)"]
    by (auto simp: c dht_step_cache split: option.splits)
qed

text \<open>
  Claim C2. Let any history \<open>cs\<close> of \<open>dhtRead\<close> calls run from an empty cache. The cache
  then holds, for every key, exactly the pair of the most recent call for that key whose
  measurement succeeded, and nothing for a key without one: only a successful measurement
  writes it and nothing removes an entry. A further call whose measurement fails returns
  that pair and leaves the cache as it is, or, when no call for its key ever succeeded,
  propagates the failure; a call whose measurement succeeds returns the measured pair and
  stores it.
\<close>

theorem dhtRead_falls_back_to_last_success:
  assumes "DHT_CACHE st0 = Map.empty"
    and "st = dht_calls st0 cs"
    and "\<not> pin_ctor_raises env pin_no" and "module_type = 0 \<or> module_type = 1"
  shows "DHT_CACHE st = last_success cs
    \<and> (dht_measure env pin_no module_type = None \<longrightarrow>
         dhtRead env st pin_no module_type =
           (case last_success cs (pin_no, module_type) of
              Some v \<Rightarrow> (Inr v, st)
            | None \<Rightarrow> (Inl SensorError, st)))
    \<and> (\<forall>v. dht_measure env pin_no module_type = Some v \<longrightarrow>
         dhtRead env st pin_no module_type =
           (Inr v, st\<lparr>DHT_CACHE := (DHT_CACHE st)((pin_no, module_type) \<mapsto> v)\<rparr>))"
proof -
  have cache: "DHT_CACHE st = last_success cs"
    using assms(1,2) by (auto simp: dht_calls_cache fun_eq_iff split: option.splits)
  show ?thesis
    using assms(3,4) cache
    by (auto simp: dhtRead_def Let_def split: option.splits)
qed

theorem dhtRead_falls_back_to_last_success_witness:
  "DHT_CACHE (init_state :: int state) = Map.empty
   \<and> \<not> pin_ctor_raises failing_sensor_env 16
   \<and> dht_measure failing_sensor_env 16 0 = None
   \<and> fst (dhtRead failing_sensor_env
        (dht_calls init_state [(quiet_env, 16, 0), (warm_sensor_env, 16, 0),
                               (failing_sensor_env, 16, 0), (quiet_env, 18, 0)]) 16 0)
       = Inr (22, 41)
   \<and> fst (dhtRead failing_sensor_env (dht_calls init_state [(quiet_env, 18, 0)]) 16 0)
       = Inl SensorError"
  using dhtRead_falls_back_to_last_success [of "init_state :: int state"
      "dht_calls init_state [(quiet_env, 16, 0), (warm_sensor_env, 16, 0),
                               (failing_sensor_env, 16, 0), (quiet_env, 18, 0)]"
      "[(quiet_env, 16, 0), (warm_sensor_env, 16, 0),
                               (failing_sensor_env, 16, 0), (quiet_env, 18, 0)]"
      failing_sensor_env 16 0]
    dhtRead_falls_back_to_last_success [of "init_state :: int state"
      "dht_calls init_state [(quiet_env, 18, 0)]" "[(quiet_env, 18, 0)]" failing_sensor_env 16 0]
  by (simp add: init_state_def quiet_env_def failing_sensor_env_def warm_sensor_env_def
      measured_def)

section \<open>Display layout\<close>

lemma lcd_do_ok:
  "\<not> lcd_raises env c \<Longrightarrow>
     lcd_do env st k c = (Inr (), st\<lparr>LCD_CACHE := (LCD_CACHE st)(k \<mapsto> lcd_trace st k @ [c])\<rparr>)"
  by (simp add: lcd_do_def lcd_trace_def split: option.splits)

lemma lcd_do_raises:
  "lcd_raises env c \<Longrightarrow> lcd_do env st k c = (Inl LcdError, st)"
  by (simp add: lcd_do_def)

lemma lcd_trace_upd [simp]:
  "lcd_trace (st\<lparr>LCD_CACHE := (LCD_CACHE st)(k \<mapsto> cs)\<rparr>) k = cs"
  by (simp add: lcd_trace_def)

lemma lcd_upd_upd [simp]:
  "st\<lparr>LCD_CACHE := (LCD_CACHE st)(k \<mapsto> a)\<rparr>\<lparr>LCD_CACHE := (LCD_CACHE (st\<lparr>LCD_CACHE := (LCD_CACHE st)(k \<mapsto> a)\<rparr>))(k \<mapsto> b)\<rparr>
    = st\<lparr>LCD_CACHE := (LCD_CACHE st)(k \<mapsto> b)\<rparr>"
  by simp

lemma lcd_clear_best_effort:
  "snd (lcd_do env st k Clear) =
     (if lcd_raises env Clear then st
      else st\<lparr>LCD_CACHE := (LCD_CACHE st)(k \<mapsto> lcd_trace st k @ [Clear])\<rparr>)"
  by (simp add: lcd_do_ok lcd_do_raises)

lemma lcd_text_eq:
  "slice (replace (replace (strip raw) CHR 0x0D CHR '' '') CHR 0x0A CHR '' '') 0 32 = lcd_text raw"
proof -
  have "replace (replace (strip raw) CHR 0x0D CHR '' '') CHR 0x0A CHR '' ''
      = map (\<lambda>c. if c = CHR 0x0D \<or> c = CHR 0x0A then CHR '' '' else c) (strip raw)"
    by (auto simp: replace_def)
  then show ?thesis
    by (simp add: slice_def lcd_text_def)
qed

lemma lcd_text_lines:
  "slice (lcd_text raw) 0 16 = take 16 (lcd_text raw)"
  "slice (lcd_text raw) 16 32 = drop 16 (lcd_text raw)"
  "slice (lcd_text raw) 16 32 \<noteq> [] \<longleftrightarrow> 16 < length (lcd_text raw)"
  by (auto simp: slice_def lcd_text_def)

lemma write_lcd_trace:
  assumes "get_lcd env st name = (Inr k, st1)"
    and "\<not> lcd_raises env Home" and "\<forall>s. \<not> lcd_raises env (Print s)"
    and "\<not> lcd_raises env (SetCursor 0 1)"
  shows "write_lcd env st name raw_text =
     (Inr (), st1\<lparr>LCD_CACHE := (LCD_CACHE st1)(k \<mapsto>
        lcd_trace st1 k @ (if lcd_raises env Clear then [] else [Clear])
          @ [Home, Print (take 16 (lcd_text raw_text))]
          @ (if 16 < length (lcd_text raw_text)
             then [SetCursor 0 1, Print (drop 16 (lcd_text raw_text))] else []))\<rparr>)"
  unfolding write_lcd_def Let_def lcd_text_eq lcd_text_lines
  using assms
  by (simp add: lcd_clear_best_effort lcd_do_ok)


lemma lower_bus_key: "lower ''i2c0'' = ''i2c0''" "lower ''i2c1'' = ''i2c1''"
  by (simp_all add: lower_def lower_char_def)

lemma get_lcd_ok:
  assumes "key = ''i2c0'' \<or> key = ''i2c1''"
    and "LCD1602 env \<or> key \<in> dom (LCD_CACHE st)"
  shows "\<exists>st1. get_lcd env st key = (Inr key, st1) \<and> lcd_trace st1 key = lcd_trace st key"
  using assms
  by (auto simp: get_lcd_def Let_def lower_bus_key I2C_BUSES_def lcd_trace_def
      split: option.splits)

lemma setText_write_lcd:
  assumes "(lower bus = ''0'' \<or> lower bus = ''i2c0'') \<and> key = ''i2c0''
         \<or> (lower bus = ''1'' \<or> lower bus = ''i2c1'') \<and> key = ''i2c1''"
  shows "setText env st bus text = write_lcd env st key text"
  using assms by (auto simp: setText_def Let_def)

text \<open>
  Claim C7. For a recognized bus token whose display handle exists or can be created, and a
  driver on which \<open>home\<close>, \<open>print\<close> and \<open>setCursor\<close> do not raise: \<open>setText\<close> succeeds
  and the handle carries out, after what it did before, \<open>clear\<close> (left out when it raises:
  the failure is swallowed and writing goes on), \<open>home\<close>, \<open>print\<close> of the first 16
  characters of the display text \<open>t\<close>, and, only when \<open>t\<close> has more than 16 characters,
  \<open>setCursor(0, 1)\<close> and \<open>print\<close> of the characters 17 to 32, and nothing else. Here
  \<open>t\<close> is the raw text trimmed, with every carriage return and line feed replaced by a
  space, cut after 32 characters; the two printed lines together are exactly \<open>t\<close>, no
  padding is added.
\<close>

theorem setText_layout:
  assumes "(lower bus = ''0'' \<or> lower bus = ''i2c0'') \<and> key = ''i2c0''
         \<or> (lower bus = ''1'' \<or> lower bus = ''i2c1'') \<and> key = ''i2c1''"
    and "LCD1602 env \<or> key \<in> dom (LCD_CACHE st)"
    and "\<not> lcd_raises env Home" and "\<forall>s. \<not> lcd_raises env (Print s)"
    and "\<not> lcd_raises env (SetCursor 0 1)"
    and "t = lcd_text raw_text"
  shows "fst (setText env st bus raw_text) = Inr ()
    \<and> lcd_trace (snd (setText env st bus raw_text)) key =
        lcd_trace st key @ (if lcd_raises env Clear then [] else [Clear])
          @ [Home, Print (take 16 t)]
          @ (if 16 < length t then [SetCursor 0 1, Print (drop 16 t)] else [])
    \<and> length t \<le> 32 \<and> take 16 t @ drop 16 t = t"
proof -
  have k: "key = ''i2c0'' \<or> key = ''i2c1''"
    using assms(1) by blast
  obtain st1 where g: "get_lcd env st key = (Inr key, st1)"
    and tr: "lcd_trace st1 key = lcd_trace st key"
    using get_lcd_ok [OF k assms(2)] by blast
  have "setText env st bus raw_text = write_lcd env st key raw_text"
    by (rule setText_write_lcd [OF assms(1)])
  also note write_lcd_trace [OF g assms(3,4,5), of raw_text]
  finally have "setText env st bus raw_text =
     (Inr (), st1\<lparr>LCD_CACHE := (LCD_CACHE st1)(key \<mapsto>
        lcd_trace st1 key @ (if lcd_raises env Clear then [] else [Clear])
          @ [Home, Print (take 16 (lcd_text raw_text))]
          @ (if 16 < length (lcd_text raw_text)
             then [SetCursor 0 1, Print (drop 16 (lcd_text raw_text))] else []))\<rparr>)" .
  moreover have "length t \<le> 32"
    by (simp add: assms(6) lcd_text_def)
  ultimately show ?thesis
    by (simp add: tr assms(6))
qed

theorem setText_layout_witness:
  "lower ''I2C0'' = ''i2c0''
   \<and> fst (setText quiet_env init_state ''I2C0'' (CHR 0x09 # ''hello, world'' @ [CHR 0x0D, CHR 0x0A] @ ''1234567890 abcdefghijklmnop  '')) = Inr ()
   \<and> lcd_trace (snd (setText quiet_env init_state ''I2C0''
        (CHR 0x09 # ''hello, world'' @ [CHR 0x0D, CHR 0x0A] @ ''1234567890 abcdefghijklmnop  ''))) ''i2c0''
      = [Clear, Home, Print ''hello, world  12'', SetCursor 0 1, Print ''34567890 abcdefg'']
   \<and> lcd_trace (snd (setText (quiet_env\<lparr>lcd_raises := (\<lambda>c. c = Clear)\<rparr>) init_state ''0'' [])) ''i2c0''
      = [Home, Print []]"
proof -
  have l: "lower ''I2C0'' = ''i2c0''" "lower ''0'' = ''0''"
    by (simp_all add: lower_def lower_char_def)
  have t1: "''hello, world  1234567890 abcdefg'' = lcd_text
      (CHR 0x09 # ''hello, world'' @ [CHR 0x0D, CHR 0x0A] @ ''1234567890 abcdefghijklmnop  '')"
    by code_simp
  have t2: "[] = lcd_text []"
    by code_simp
  have e: "lcd_trace (init_state :: int state) ''i2c0'' = []"
    by (simp add: lcd_trace_def init_state_def)
  show ?thesis
    using setText_layout [of "''I2C0''" "''i2c0''" quiet_env "init_state :: int state", OF _ _ _ _ _ t1]
      setText_layout [of "''0''" "''i2c0''" "quiet_env\<lparr>lcd_raises := (\<lambda>c. c = Clear)\<rparr>"
        "init_state :: int state", OF _ _ _ _ _ t2]
    by (simp add: l e quiet_env_def)
qed


section \<open>Trimming\<close>

lemma blank_simps [simp]:
  "blank []" "blank (c # s) \<longleftrightarrow> isspace c \<and> blank s" "blank (s @ t) \<longleftrightarrow> blank s \<and> blank t"
  "blank (rev s) \<longleftrightarrow> blank s"
  by (auto simp: blank_def)

lemma blank_not_mem: "blank s \<Longrightarrow> \<not> isspace c \<Longrightarrow> c \<notin> set s"
  by (auto simp: blank_def)

lemma isspace_paren [simp]:
  "\<not> isspace CHR ''(''" "\<not> isspace CHR '')''" "\<not> isspace CHR '',''"
  by (simp_all add: isspace_def)

lemma lstrip_blank_append: "blank a \<Longrightarrow> lstrip (a @ s) = lstrip s"
  by (simp add: lstrip_def blank_def)

lemma lstrip_id: "s = [] \<or> \<not> isspace (hd s) \<Longrightarrow> lstrip s = s"
  by (cases s) (auto simp: lstrip_def)

lemma rstrip_blank_append: "blank b \<Longrightarrow> rstrip (s @ b) = rstrip s"
  by (simp add: rstrip_def blank_def dropWhile_append)

lemma rstrip_id: "s = [] \<or> \<not> isspace (last s) \<Longrightarrow> rstrip s = s"
  by (cases s rule: rev_cases) (auto simp: rstrip_def)

lemma strip_sandwich:
  assumes "blank a" and "blank b" and "t = [] \<or> \<not> isspace (hd t) \<and> \<not> isspace (last t)"
  shows "strip (a @ t @ b) = t"
proof -
  have "lstrip (a @ t @ b) = lstrip (t @ b)"
    using assms(1) by (rule lstrip_blank_append)
  also have "\<dots> = (if t = [] then [] else t @ b)"
    using assms(2,3) by (cases t) (auto simp: lstrip_def blank_def)
  finally have "strip (a @ t @ b) = rstrip (if t = [] then [] else t @ b)"
    by (simp add: strip_def)
  also have "\<dots> = t"
    using assms(2,3) by (auto simp: rstrip_blank_append rstrip_id)
  finally show ?thesis .
qed

lemma strip_decomp:
  "\<exists>a b. s = a @ strip s @ b \<and> blank a \<and> blank b
     \<and> (strip s = [] \<or> \<not> isspace (hd (strip s)) \<and> \<not> isspace (last (strip s)))"
proof -
  define a where "a = takeWhile isspace s"
  define u where "u = dropWhile isspace s"
  define b where "b = rev (takeWhile isspace (rev u))"
  have s: "s = a @ u" by (simp add: a_def u_def)
  have t: "strip s = rev (dropWhile isspace (rev u))"
    by (simp add: strip_def rstrip_def lstrip_def u_def)
  have "rev u = takeWhile isspace (rev u) @ dropWhile isspace (rev u)" by simp
  then have "u = rev (dropWhile isspace (rev u)) @ b"
    unfolding b_def by (metis rev_append rev_rev_ident)
  then have u: "u = strip s @ b" by (simp add: t)
  have ba: "blank a" by (auto simp: a_def blank_def dest: set_takeWhileD)
  have bb: "blank b" by (auto simp: b_def blank_def dest: set_takeWhileD)
  have hd_u: "u \<noteq> [] \<Longrightarrow> \<not> isspace (hd u)"
    unfolding u_def by (rule hd_dropWhile)
  have last_t: "strip s \<noteq> [] \<Longrightarrow> \<not> isspace (last (strip s))"
    unfolding t using hd_dropWhile [of isspace "rev u"] by (simp add: last_rev)
  have hd_t: "strip s \<noteq> [] \<Longrightarrow> \<not> isspace (hd (strip s))"
    using hd_u u by (cases "strip s") auto
  show ?thesis
    using s u ba bb hd_t last_t by (intro exI [of _ a] exI [of _ b]) auto
qed

lemma strip_eq_Nil: "strip s = [] \<longleftrightarrow> blank s"
proof -
  obtain a b where d: "s = a @ strip s @ b" "blank a" "blank b"
    "strip s = [] \<or> \<not> isspace (hd (strip s)) \<and> \<not> isspace (last (strip s))"
    using strip_decomp by blast
  show ?thesis
  proof
    assume "strip s = []"
    then show "blank s" using d by (metis append_Nil blank_simps(3))
  next
    assume bs: "blank s"
    show "strip s = []"
    proof (rule ccontr)
      assume n: "strip s \<noteq> []"
      then have "\<not> isspace (hd (strip s))" using d(4) by blast
      moreover have "hd (strip s) \<in> set s" using n d(1) by (metis hd_in_set in_set_conv_decomp list.set_intros(1) set_append UnCI)
      ultimately show False using bs by (auto simp: blank_def)
    qed
  qed
qed

lemma strip_idem: "strip (strip s) = strip s"
proof -
  obtain a b where d: "s = a @ strip s @ b" "blank a" "blank b"
    "strip s = [] \<or> \<not> isspace (hd (strip s)) \<and> \<not> isspace (last (strip s))"
    using strip_decomp by blast
  show ?thesis
    using strip_sandwich [of "[]" "[]" "strip s"] d(4) by simp
qed

lemma strip_blank_left: "blank a \<Longrightarrow> strip (a @ s) = strip s"
  by (simp add: strip_def lstrip_blank_append)

lemma strip_blank_right:
  assumes "blank b"
  shows "strip (s @ b) = strip s"
proof -
  define t where "t = strip s"
  obtain a' b' where d: "s = a' @ t @ b'" "blank a'" "blank b'"
    "t = [] \<or> \<not> isspace (hd t) \<and> \<not> isspace (last t)"
    unfolding t_def using strip_decomp by blast
  have "strip (s @ b) = strip (a' @ t @ (b' @ b))"
    by (simp add: d(1))
  also have "\<dots> = t"
    using strip_sandwich [of a' "b' @ b" t] d assms by simp
  finally show ?thesis
    by (simp add: t_def)
qed

section \<open>Searching and slicing\<close>

lemma takeWhile_upto: "c \<notin> set p \<Longrightarrow> takeWhile (\<lambda>x. x \<noteq> c) (p @ c # q) = p"
  by (induction p) auto

lemma dropWhile_upto: "c \<notin> set p \<Longrightarrow> dropWhile (\<lambda>x. x \<noteq> c) (p @ c # q) = c # q"
  by (induction p) auto

lemma takeWhile_absent: "c \<notin> set s \<Longrightarrow> takeWhile (\<lambda>x. x \<noteq> c) s = s"
  by (induction s) auto

lemma dropWhile_absent: "c \<notin> set s \<Longrightarrow> dropWhile (\<lambda>x. x \<noteq> c) s = []"
  by (induction s) auto

lemma find_char_first: "c \<notin> set p \<Longrightarrow> find_char (p @ c # q) c = int (length p)"
  by (simp add: find_char_def takeWhile_upto)

lemma find_char_absent: "c \<notin> set s \<Longrightarrow> find_char s c = - 1"
  by (simp add: find_char_def)

lemma rfind_char_last: "c \<notin> set q \<Longrightarrow> rfind_char (p @ c # q) c = int (length p)"
  using takeWhile_upto [of c "rev q" "rev p"] by (simp add: rfind_char_def)

lemma rfind_char_absent: "c \<notin> set s \<Longrightarrow> rfind_char s c = - 1"
  by (simp add: rfind_char_def)

lemma before_first_split: "c \<notin> set p \<Longrightarrow> before_first c (p @ c # q) = p"
  by (simp add: before_first_def takeWhile_upto)

lemma after_first_split: "c \<notin> set p \<Longrightarrow> after_first c (p @ c # q) = q"
  by (simp add: after_first_def dropWhile_upto)

lemma before_last_split: "c \<notin> set q \<Longrightarrow> before_last c (p @ c # q) = p"
  using dropWhile_upto [of c "rev q" "rev p"] by (simp add: before_last_def after_first_def)

lemma before_first_absent: "c \<notin> set s \<Longrightarrow> before_first c s = s"
  by (simp add: before_first_def takeWhile_absent)

lemma after_first_absent: "c \<notin> set s \<Longrightarrow> after_first c s = []"
  by (simp add: after_first_def dropWhile_absent)

lemma slice_prefix: "slice (p @ q) 0 (int (length p)) = p"
  by (simp add: slice_def)

lemma slice_middle:
  "slice (p @ c # m @ d # q) (int (length p) + 1) (int (length p) + 1 + int (length m)) = m"
proof -
  have "nat (int (length p) + 1 + int (length m)) = length (p @ c # m)" by simp
  then have "take (nat (int (length p) + 1 + int (length m))) (p @ c # m @ d # q) = p @ c # m"
    by (metis append.assoc append_Cons append_eq_conv_conj)
  moreover have "nat (int (length p) + 1) = length (p @ [c])" by simp
  ultimately show ?thesis
    by (simp add: slice_def)
qed

lemma parse_call_eq:
  "parse_call line =
     (if blank line \<or> CHR ''('' \<notin> set line \<or> hd (lstrip line) = CHR ''(''
         \<or> CHR '')'' \<notin> set (after_first CHR ''('' line)
      then None
      else Some (strip (before_first CHR ''('' line),
                 strip (before_last CHR '')'' (after_first CHR ''('' line))))"
proof -
  define s where "s = strip line"
  obtain a b where d: "line = a @ s @ b" "blank a" "blank b"
    "s = [] \<or> \<not> isspace (hd s) \<and> \<not> isspace (last s)"
    unfolding s_def using strip_decomp by blast
  have na: "CHR ''('' \<notin> set a" "CHR '')'' \<notin> set a"
    using d(2) blank_not_mem isspace_paren by blast+
  have nb: "CHR ''('' \<notin> set b" "CHR '')'' \<notin> set b"
    using d(3) blank_not_mem isspace_paren by blast+
  show ?thesis
  proof (cases "s = []")
    case True
    then have "blank line"
      using d by simp
    moreover have "parse_call line = None"
      using True by (simp add: parse_call_def s_def)
    ultimately show ?thesis
      by simp
  next
    case ne: False
    then have nbl: "\<not> blank line"
      by (simp add: s_def strip_eq_Nil)
    have line_ne: "line \<noteq> []"
      using nbl by auto
    have hd_s: "\<not> isspace (hd s)"
      using d(4) ne by blast
    have ls: "lstrip line = s @ b"
      using d(1,2) ne hd_s lstrip_id [of "s @ b"] by (simp add: lstrip_blank_append)
    have hd_l: "hd (lstrip line) = hd s"
      using ls ne by simp
    show ?thesis
    proof (cases "CHR ''('' \<in> set s")
      case False
      then have "CHR ''('' \<notin> set line"
        using d(1) na nb by simp
      moreover have "parse_call line = None"
        using False ne line_ne by (simp add: parse_call_def Let_def s_def [symmetric] find_char_absent)
      ultimately show ?thesis
        by simp
    next
      case True
      then obtain p q where pq: "s = p @ CHR ''('' # q" "CHR ''('' \<notin> set p"
        by (meson split_list_first)
      have l: "find_char s CHR ''('' = int (length p)"
        using pq by (simp add: find_char_first)
      have open_in: "CHR ''('' \<in> set line"
        using d(1) True by simp
      have line_eq: "line = (a @ p) @ CHR ''('' # (q @ b)"
        using d(1) pq(1) by simp
      have nap: "CHR ''('' \<notin> set (a @ p)"
        using na pq(2) by simp
      have bf: "before_first CHR ''('' line = a @ p"
        unfolding line_eq using nap by (rule before_first_split)
      have af: "after_first CHR ''('' line = q @ b"
        unfolding line_eq using nap by (rule after_first_split)
      have name: "strip (before_first CHR ''('' line) = strip p"
        using bf d(2) by (simp add: strip_blank_left)
      have hd_open: "hd (lstrip line) = CHR ''('' \<longleftrightarrow> p = []"
      proof (cases p)
        case Nil
        then show ?thesis using hd_l pq(1) by simp
      next
        case (Cons x xs)
        then show ?thesis using hd_l pq by auto
      qed
      show ?thesis
      proof (cases "CHR '')'' \<in> set q")
        case False
        have "rfind_char s CHR '')'' \<le> int (length p)"
        proof (cases "CHR '')'' \<in> set p")
          case False
          then have "CHR '')'' \<notin> set s"
            using \<open>CHR '')'' \<notin> set q\<close> pq(1) by simp
          then show ?thesis
            by (simp add: rfind_char_absent)
        next
          case True
          then obtain p1 p2 where p12: "p = p1 @ CHR '')'' # p2" "CHR '')'' \<notin> set p2"
            by (meson split_list_last)
          have "s = p1 @ CHR '')'' # (p2 @ CHR ''('' # q)"
            using pq(1) p12(1) by simp
          moreover have "CHR '')'' \<notin> set (p2 @ CHR ''('' # q)"
            using p12(2) \<open>CHR '')'' \<notin> set q\<close> by simp
          ultimately have "rfind_char s CHR '')'' = int (length p1)"
            using rfind_char_last [of "CHR '')''" "p2 @ CHR ''('' # q" p1] by simp
          then show ?thesis
            using p12(1) by simp
        qed
        then have "parse_call line = None"
          using l ne line_ne by (simp add: parse_call_def Let_def s_def [symmetric])
        moreover have "CHR '')'' \<notin> set (after_first CHR ''('' line)"
          using af False nb by simp
        ultimately show ?thesis
          by simp
      next
        case True
        then obtain q1 q2 where q12: "q = q1 @ CHR '')'' # q2" "CHR '')'' \<notin> set q2"
          by (meson split_list_last)
        have s_eq: "s = (p @ CHR ''('' # q1) @ CHR '')'' # q2"
          using pq(1) q12(1) by simp
        have r: "rfind_char s CHR '')'' = int (length p) + 1 + int (length q1)"
          unfolding s_eq using rfind_char_last [OF q12(2), of "p @ CHR ''('' # q1"] by simp
        have s_eq2: "s = p @ CHR ''('' # q1 @ CHR '')'' # q2"
          using s_eq by simp
        have sl1: "slice s 0 (int (length p)) = p"
          unfolding s_eq2 by (rule slice_prefix)
        have sl2: "slice s (int (length p) + 1) (int (length p) + 1 + int (length q1)) = q1"
          unfolding s_eq2 by (rule slice_middle)
        have pc: "parse_call line = (if p = [] then None else Some (strip p, strip q1))"
          using l r ne line_ne sl1 sl2 by (simp add: parse_call_def Let_def s_def [symmetric])
        have close_in: "CHR '')'' \<in> set (after_first CHR ''('' line)"
          using af True by simp
        have "after_first CHR ''('' line = q1 @ CHR '')'' # (q2 @ b)"
          using af q12(1) by simp
        moreover have "CHR '')'' \<notin> set (q2 @ b)"
          using q12(2) nb by simp
        ultimately have "before_last CHR '')'' (after_first CHR ''('' line) = q1"
          using before_last_split [of "CHR '')''" "q2 @ b" q1] by simp
        then show ?thesis
          using pc nbl open_in hd_open close_in name by simp
      qed
    qed
  qed
qed

section \<open>The call parser\<close>

lemma parse_call_no_open: "CHR ''('' \<notin> set line \<Longrightarrow> parse_call line = None"
  by (simp add: parse_call_eq)

lemma parse_call_suffix:
  assumes "CHR '')'' \<notin> set post"
  shows "parse_call (pre @ CHR '')'' # post) = parse_call (pre @ [CHR '')''])"
proof (cases "CHR ''('' \<in> set pre")
  case False
  have "parse_call (pre @ [CHR '')'']) = None"
    using False by (simp add: parse_call_no_open)
  moreover have "parse_call (pre @ CHR '')'' # post) = None"
  proof (cases "CHR ''('' \<in> set post")
    case False
    then show ?thesis
      using \<open>CHR ''('' \<notin> set pre\<close> by (simp add: parse_call_no_open)
  next
    case True
    then obtain u v where uv: "post = u @ CHR ''('' # v" "CHR ''('' \<notin> set u"
      by (meson split_list_first)
    have "pre @ CHR '')'' # post = (pre @ CHR '')'' # u) @ CHR ''('' # v"
      using uv(1) by simp
    moreover have "CHR ''('' \<notin> set (pre @ CHR '')'' # u)"
      using uv(2) \<open>CHR ''('' \<notin> set pre\<close> by simp
    ultimately have "after_first CHR ''('' (pre @ CHR '')'' # post) = v"
      using after_first_split [of "CHR ''(''" "pre @ CHR '')'' # u" v] by simp
    moreover have "CHR '')'' \<notin> set v"
      using assms uv(1) by simp
    ultimately show ?thesis
      by (simp add: parse_call_eq)
  qed
  ultimately show ?thesis
    by simp
next
  case True
  then obtain p q where pq: "pre = p @ CHR ''('' # q" "CHR ''('' \<notin> set p"
    by (meson split_list_first)
  have nb: "\<not> blank pre"
    using True blank_not_mem isspace_paren(1) by blast
  have ls: "lstrip (pre @ x) = lstrip pre @ x" for x
    using nb by (auto simp: lstrip_def blank_def dropWhile_append)
  have e1: "pre @ CHR '')'' # post = p @ CHR ''('' # (q @ CHR '')'' # post)"
    and e2: "pre @ [CHR '')''] = p @ CHR ''('' # (q @ [CHR '')''])"
    using pq(1) by simp_all
  have bf: "before_first CHR ''('' (pre @ CHR '')'' # post) = p"
    "before_first CHR ''('' (pre @ [CHR '')'']) = p"
    unfolding e1 e2 using pq(2) by (rule before_first_split)+
  have af: "after_first CHR ''('' (pre @ CHR '')'' # post) = q @ CHR '')'' # post"
    "after_first CHR ''('' (pre @ [CHR '')'']) = q @ [CHR '')'']"
    unfolding e1 e2 using pq(2) by (rule after_first_split)+
  have bl: "before_last CHR '')'' (q @ CHR '')'' # post) = q"
    "before_last CHR '')'' (q @ [CHR '')'']) = q"
    using assms by (simp_all add: before_last_split)
  have hd: "hd (lstrip (pre @ x)) = hd (lstrip pre)" for x
    using nb by (simp add: ls) (simp add: lstrip_def blank_def)
  show ?thesis
    using nb True by (simp add: parse_call_eq bf af bl hd)
qed

lemma parse_call_shape:
  assumes "CHR ''('' \<notin> set pre" and "CHR '')'' \<notin> set post" and "\<not> blank pre"
  shows "parse_call (pre @ CHR ''('' # mid @ CHR '')'' # post) = Some (strip pre, strip mid)"
proof -
  have ls: "lstrip (pre @ x) = lstrip pre @ x" for x
    using assms(3) by (auto simp: lstrip_def blank_def dropWhile_append)
  have ne: "lstrip pre \<noteq> []"
    using assms(3) by (auto simp: lstrip_def blank_def)
  have "set (lstrip pre) \<subseteq> set pre"
    by (auto simp: lstrip_def dest: set_dropWhileD)
  then have "hd (lstrip pre) \<noteq> CHR ''(''"
    using assms(1) ne hd_in_set by fastforce
  then have hd: "hd (lstrip (pre @ CHR ''('' # mid @ CHR '')'' # post)) \<noteq> CHR ''(''"
    using ne by (simp add: ls)
  have bf: "before_first CHR ''('' (pre @ CHR ''('' # mid @ CHR '')'' # post) = pre"
    using assms(1) by (rule before_first_split)
  have af: "after_first CHR ''('' (pre @ CHR ''('' # mid @ CHR '')'' # post) = mid @ CHR '')'' # post"
    using assms(1) by (rule after_first_split)
  have bl: "before_last CHR '')'' (mid @ CHR '')'' # post) = mid"
    using assms(2) by (rule before_last_split)
  show ?thesis
    using assms(3) hd by (simp add: parse_call_eq bf af bl)
qed

text \<open>
  Claim C5, as stated, fails in one point: the parser returns the text between the first
  \<open>(\<close> and the last \<open>)\<close> trimmed (\<open>args_str = s[l + 1 : r].strip()\<close>), not that text
  itself. For the line \<open>f( 1 )\<close> the text strictly between the parentheses has three
  characters and the parser returns the one-character argument string.
\<close>

theorem parse_call_args_counterexample:
  "parse_call ''f( 1 )'' = Some (''f'', ''1'')
   \<and> before_last CHR '')'' (after_first CHR ''('' ''f( 1 )'') = '' 1 ''
   \<and> parse_call ''f( 1 )''
       \<noteq> Some (strip (before_first CHR ''('' ''f( 1 )''),
                 before_last CHR '')'' (after_first CHR ''('' ''f( 1 )''))"
  by code_simp

text \<open>
  Claim C5, amended. For every input line, the call parser fails exactly when the line is
  empty or whitespace-only, contains no \<open>(\<close>, has \<open>(\<close> as its first non-whitespace
  character, or has no \<open>)\<close> after the first \<open>(\<close>; otherwise it returns the pair of the
  trimmed text before the first \<open>(\<close> and the trimmed text strictly between the first
  \<open>(\<close> and the last \<open>)\<close>. Text after the last \<open>)\<close> never affects the result.
\<close>

theorem parse_call_spec:
  "(parse_call line = None \<longleftrightarrow>
      blank line \<or> CHR ''('' \<notin> set line \<or> hd (lstrip line) = CHR ''(''
      \<or> CHR '')'' \<notin> set (after_first CHR ''('' line))
   \<and> (\<forall>name args. parse_call line = Some (name, args) \<longrightarrow>
          name = strip (before_first CHR ''('' line)
        \<and> args = strip (before_last CHR '')'' (after_first CHR ''('' line)))
   \<and> (CHR '')'' \<notin> set post \<longrightarrow>
          parse_call (pre @ CHR '')'' # post) = parse_call (pre @ [CHR '')'']))"
proof (intro conjI allI impI)
  show "parse_call line = None \<longleftrightarrow>
      blank line \<or> CHR ''('' \<notin> set line \<or> hd (lstrip line) = CHR ''(''
      \<or> CHR '')'' \<notin> set (after_first CHR ''('' line)"
    by (subst parse_call_eq) simp
next
  fix name args
  assume "parse_call line = Some (name, args)"
  then have "(if blank line \<or> CHR ''('' \<notin> set line \<or> hd (lstrip line) = CHR ''(''
         \<or> CHR '')'' \<notin> set (after_first CHR ''('' line)
      then None
      else Some (strip (before_first CHR ''('' line),
                 strip (before_last CHR '')'' (after_first CHR ''('' line)))) = Some (name, args)"
    by (simp only: parse_call_eq [symmetric])
  then show "name = strip (before_first CHR ''('' line)"
    and "args = strip (before_last CHR '')'' (after_first CHR ''('' line))"
    by (simp_all split: if_splits)
next
  assume "CHR '')'' \<notin> set post"
  then show "parse_call (pre @ CHR '')'' # post) = parse_call (pre @ [CHR '')''])"
    by (rule parse_call_suffix)
qed

theorem parse_call_spec_witness:
  "CHR '')'' \<notin> set '' ; x''
   \<and> parse_call ('' pinMode (16, OUTPUT '' @ CHR '')'' # '' ; x'') = Some (''pinMode'', ''16, OUTPUT'')
   \<and> parse_call ''pinMode 16'' = None
   \<and> parse_call ''(16)'' = None"
proof -
  have n: "CHR '')'' \<notin> set '' ; x''"
    by simp
  have p: "parse_call ('' pinMode (16, OUTPUT '' @ [CHR '')'']) = Some (''pinMode'', ''16, OUTPUT'')"
    by code_simp
  have q: "CHR ''('' \<notin> set ''pinMode 16''"
    by simp
  have r: "hd (lstrip ''(16)'') = CHR ''(''"
    by (simp add: lstrip_def isspace_def)
  have "parse_call ('' pinMode (16, OUTPUT '' @ CHR '')'' # '' ; x'')
      = parse_call ('' pinMode (16, OUTPUT '' @ [CHR '')''])"
    by (rule parse_call_spec [THEN conjunct2, THEN conjunct2, THEN mp, OF n])
  then have a: "parse_call ('' pinMode (16, OUTPUT '' @ CHR '')'' # '' ; x'')
      = Some (''pinMode'', ''16, OUTPUT'')"
    by (simp only: p)
  have b: "parse_call ''pinMode 16'' = None"
    by (rule parse_call_spec [THEN conjunct1, THEN iffD2], rule disjI2, rule disjI1, rule q)
  have c: "parse_call ''(16)'' = None"
    by (rule parse_call_spec [THEN conjunct1, THEN iffD2], rule disjI2, rule disjI2,
        rule disjI1, rule r)
  show ?thesis
    using n a b c by (intro conjI)
qed

section \<open>Argument splitting\<close>

lemma split_nonempty [simp]: "split s sep \<noteq> []"
  by (induction s) auto

lemma join_Cons: "ps \<noteq> [] \<Longrightarrow> join sep (p # ps) = p @ sep # join sep ps"
  by (cases ps) auto

lemma join_split: "join sep (split s sep) = s"
proof (induction s)
  case Nil
  show ?case by simp
next
  case (Cons c cs)
  obtain p ps where sp: "split cs sep = p # ps"
    by (cases "split cs sep") auto
  show ?case
    using Cons sp by (cases ps) (auto simp: join_Cons)
qed

lemma split_no_sep: "p \<in> set (split s sep) \<Longrightarrow> sep \<notin> set p"
proof (induction s arbitrary: p)
  case Nil
  then show ?case by simp
next
  case (Cons c cs)
  obtain q qs where sp: "split cs sep = q # qs"
    by (cases "split cs sep") auto
  show ?case
    using Cons sp by (auto split: if_splits)
qed

lemma split1_cut:
  "sep \<notin> set a \<Longrightarrow> split1 (a @ sep # b) sep = [a, b]"
  by (simp add: split1_def takeWhile_upto dropWhile_upto)

lemma split1_whole: "sep \<notin> set s \<Longrightarrow> split1 s sep = [s]"
  by (simp add: split1_def)

lemma split1_length: "length (split1 s sep) \<le> 2"
  by (simp add: split1_def)

lemma strip_filter_map:
  "map strip (filter (\<lambda>p. strip p \<noteq> []) ps) = filter (\<lambda>p. p \<noteq> []) (map strip ps)"
  by (induction ps) auto

lemma split_args_default:
  "split_args s (- 1) = filter (\<lambda>p. p \<noteq> []) (map strip (split s CHR '',''))"
proof (cases "s = []")
  case True
  then show ?thesis
    by (simp add: split_args_def strip_eq_Nil)
next
  case False
  then show ?thesis
    by (simp only: split_args_def Let_def strip_filter_map) simp
qed

lemma split_args_trimmed:
  assumes "p \<in> set (split_args s m)"
  shows "p \<noteq> [] \<and> strip p = p"
  using assms by (auto simp: split_args_def Let_def strip_idem split: if_splits)

lemma split_args_variant_length: "length (split_args s 1) \<le> 2"
proof -
  have "length (split_args s 1) \<le> length (split1 s CHR '','')"
    by (simp add: split_args_def Let_def)
  also have "\<dots> \<le> 2"
    by (rule split1_length)
  finally show ?thesis .
qed

lemma split_args_variant_cut:
  assumes "CHR '','' \<notin> set a"
  shows "split_args (a @ CHR '','' # b) 1 = filter (\<lambda>p. p \<noteq> []) [strip a, strip b]"
  using assms by (simp add: split_args_def Let_def split1_cut)

lemma split_args_variant_whole:
  assumes "CHR '','' \<notin> set s"
  shows "split_args s 1 = filter (\<lambda>p. p \<noteq> []) [strip s]"
proof (cases "s = []")
  case True
  then show ?thesis
    by (simp add: split_args_def strip_eq_Nil)
next
  case False
  then show ?thesis
    using assms by (simp add: split_args_def Let_def split1_whole)
qed

text \<open>
  Claim C6. For every raw argument string: the default split gives the comma-separated
  pieces of the string (the pieces joined by commas are the string again, and no piece
  contains a comma), each trimmed, the pieces that are empty after trimming dropped; every
  returned piece is non-empty and trimmed. The variant split used for \<open>setText\<close> yields at
  most two pieces: it cuts at the first comma only, so that the second piece is the whole
  text after the first comma, trimmed, with its commas kept; without a comma it yields the
  trimmed string alone.
\<close>

theorem split_args_spec:
  "split_args s (- 1) = filter (\<lambda>p. p \<noteq> []) (map strip (split s CHR '',''))
   \<and> join CHR '','' (split s CHR '','') = s
   \<and> (\<forall>p \<in> set (split s CHR '',''). CHR '','' \<notin> set p)
   \<and> (\<forall>p \<in> set (split_args s m). p \<noteq> [] \<and> strip p = p)
   \<and> length (split_args s 1) \<le> 2
   \<and> (CHR '','' \<notin> set a \<longrightarrow>
        split_args (a @ CHR '','' # b) 1 = filter (\<lambda>p. p \<noteq> []) [strip a, strip b])
   \<and> (CHR '','' \<notin> set s \<longrightarrow> split_args s 1 = filter (\<lambda>p. p \<noteq> []) [strip s])"
proof (intro conjI ballI impI)
  show "split_args s (- 1) = filter (\<lambda>p. p \<noteq> []) (map strip (split s CHR '',''))"
    by (rule split_args_default)
  show "join CHR '','' (split s CHR '','') = s"
    by (rule join_split)
  show "CHR '','' \<notin> set p" if "p \<in> set (split s CHR '','')" for p
    using that by (rule split_no_sep)
  show "p \<noteq> []" and "strip p = p" if "p \<in> set (split_args s m)" for p
    using split_args_trimmed [OF that] by simp_all
  show "length (split_args s 1) \<le> 2"
    by (rule split_args_variant_length)
  show "split_args (a @ CHR '','' # b) 1 = filter (\<lambda>p. p \<noteq> []) [strip a, strip b]"
    if "CHR '','' \<notin> set a"
    using that by (rule split_args_variant_cut)
  show "split_args s 1 = filter (\<lambda>p. p \<noteq> []) [strip s]" if "CHR '','' \<notin> set s"
    using that by (rule split_args_variant_whole)
qed

theorem split_args_spec_witness:
  "CHR '','' \<notin> set '' 0 ''
   \<and> split_args ('' 0 '' @ CHR '','' # '' hello, world,'') 1 = [''0'', ''hello, world,'']
   \<and> split_args ''16,, OUTPUT ,'' (- 1) = [''16'', ''OUTPUT'']
   \<and> ''OUTPUT'' \<in> set (split_args ''16,, OUTPUT ,'' (- 1))
   \<and> strip ''OUTPUT'' = ''OUTPUT''"
proof -
  have n: "CHR '','' \<notin> set '' 0 ''"
    by simp
  have s: "filter (\<lambda>p. p \<noteq> []) [strip '' 0 '', strip '' hello, world,''] = [''0'', ''hello, world,'']"
    by code_simp
  have d: "filter (\<lambda>p. p \<noteq> []) (map strip (split ''16,, OUTPUT ,'' CHR '','')) = [''16'', ''OUTPUT'']"
    by code_simp
  have a: "split_args ('' 0 '' @ CHR '','' # '' hello, world,'') 1 = [''0'', ''hello, world,'']"
    using split_args_spec [THEN conjunct2, THEN conjunct2, THEN conjunct2, THEN conjunct2,
        THEN conjunct2, THEN conjunct1, THEN mp, OF n, of "'' hello, world,''"]
    by (simp only: s)
  have b: "split_args ''16,, OUTPUT ,'' (- 1) = [''16'', ''OUTPUT'']"
    using split_args_spec [THEN conjunct1, of "''16,, OUTPUT ,''"] by (simp only: d)
  have m: "''OUTPUT'' \<in> set (split_args ''16,, OUTPUT ,'' (- 1))"
    by (simp only: b) simp
  have t: "strip ''OUTPUT'' = ''OUTPUT''"
    using split_args_spec [THEN conjunct2, THEN conjunct2, THEN conjunct2, THEN conjunct1,
        THEN bspec, OF m] by (rule conjunct2)
  show ?thesis
    using n a b m t by (intro conjI)
qed

section \<open>Empty display text over the protocol\<close>

lemma cmd_settext_arity:
  "length (split_args args_str 1) \<noteq> 2 \<Longrightarrow> cmd_settext env st args_str = (send_error, st)"
  by (simp add: cmd_settext_def Let_def)

lemma handle_command_settext:
  assumes "parse_call line = Some (name, args_str)" and "lower name = ''settext''"
  shows "handle_command env st line = cmd_settext env st args_str"
proof -
  have "name \<noteq> []"
    using assms(2) by (auto simp: lower_def)
  then show ?thesis
    using assms by (simp add: handle_command_def Let_def)
qed

lemma split_args_empty_text:
  assumes "CHR '','' \<notin> set a" and "blank b"
  shows "length (split_args (strip (a @ CHR '','' # b)) 1) \<le> 1"
proof -
  have "strip (a @ CHR '','' # b) = strip ((a @ [CHR '','']) @ b)"
    by simp
  also have "\<dots> = strip (a @ [CHR '',''])"
    using assms(2) by (rule strip_blank_right)
  finally have s: "strip (a @ CHR '','' # b) = strip (a @ [CHR '',''])" .
  have "strip (a @ [CHR '','']) = lstrip a @ [CHR '','']"
  proof -
    have l: "lstrip (a @ [CHR '','']) = lstrip a @ [CHR '','']"
      by (auto simp: lstrip_def dropWhile_append)
    have "rstrip (lstrip a @ [CHR '','']) = lstrip a @ [CHR '','']"
      by (rule rstrip_id) simp
    then show ?thesis
      by (simp add: strip_def l)
  qed
  moreover have "CHR '','' \<notin> set (lstrip a)"
    using assms(1) by (auto simp: lstrip_def dest: set_dropWhileD)
  ultimately have "split_args (strip (a @ CHR '','' # b)) 1
      = filter (\<lambda>p. p \<noteq> []) [strip (lstrip a), strip []]"
    using split_args_variant_cut [of "lstrip a" "[]"] s by simp
  then show ?thesis
    by (simp add: strip_eq_Nil)
qed

text \<open>
  Claim C9. For every input line of the form \<open>name(a, t)\<close> plus ignored trailing text, where
  \<open>name\<close> is \<open>setText\<close> up to case and surrounding whitespace, \<open>a\<close> holds no comma and the
  text \<open>t\<close> after the first comma is empty or whitespace-only: the dispatcher answers the
  error line, because the variant split drops the empty second piece and the number of
  pieces is then not 2. The display adapter itself, called with an empty text on a working
  display, succeeds.
\<close>

theorem setText_empty_text_rejected:
  assumes "CHR ''('' \<notin> set pre" and "lower (strip pre) = ''settext''"
    and "CHR '','' \<notin> set a" and "blank t" and "CHR '')'' \<notin> set post"
  shows "fst (handle_command env st (pre @ CHR ''('' # a @ CHR '','' # t @ CHR '')'' # post))
           = send_error
    \<and> length (split_args (strip (a @ CHR '','' # t)) 1) \<noteq> 2
    \<and> (LCD1602 env \<and> (\<forall>c. \<not> lcd_raises env c) \<longrightarrow> fst (setText env st ''0'' []) = Inr ())"
proof -
  have "strip pre \<noteq> []"
    using assms(2) by (auto simp: lower_def)
  then have nb: "\<not> blank pre"
    by (simp add: strip_eq_Nil)
  have "parse_call (pre @ CHR ''('' # (a @ CHR '','' # t) @ CHR '')'' # post)
      = Some (strip pre, strip (a @ CHR '','' # t))"
    using assms(1,5) nb by (rule parse_call_shape)
  then have p: "parse_call (pre @ CHR ''('' # a @ CHR '','' # t @ CHR '')'' # post)
      = Some (strip pre, strip (a @ CHR '','' # t))"
    by simp
  have len: "length (split_args (strip (a @ CHR '','' # t)) 1) \<noteq> 2"
    using split_args_empty_text [OF assms(3,4)] by simp
  have "handle_command env st (pre @ CHR ''('' # a @ CHR '','' # t @ CHR '')'' # post)
      = cmd_settext env st (strip (a @ CHR '','' # t))"
    using p assms(2) by (rule handle_command_settext)
  then have r: "fst (handle_command env st (pre @ CHR ''('' # a @ CHR '','' # t @ CHR '')'' # post))
      = send_error"
    using len by (simp add: cmd_settext_arity)
  have ad: "fst (setText env st ''0'' []) = Inr ()" if "LCD1602 env" "\<forall>c. \<not> lcd_raises env c"
  proof -
    have l0: "lower ''0'' = ''0''"
      by (simp add: lower_def lower_char_def)
    have av: "LCD1602 env \<or> ''i2c0'' \<in> dom (LCD_CACHE st)"
      using that(1) by simp
    have k: "''i2c0'' = ''i2c0'' \<or> ''i2c0'' = ''i2c1''"
      by simp
    obtain st1 where g: "get_lcd env st ''i2c0'' = (Inr ''i2c0'', st1)"
      using get_lcd_ok [OF k av] by blast
    have "setText env st ''0'' [] = write_lcd env st ''i2c0'' []"
      by (rule setText_write_lcd) (simp add: l0)
    then show ?thesis
      using write_lcd_trace [OF g, of "[]"] that(2) by simp
  qed
  show ?thesis
    using r len ad by blast
qed

theorem setText_empty_text_rejected_witness:
  "CHR ''('' \<notin> set '' SetText '' \<and> lower (strip '' SetText '') = ''settext''
   \<and> CHR '','' \<notin> set ''0'' \<and> blank ''  '' \<and> CHR '')'' \<notin> set []
   \<and> fst (handle_command quiet_env init_state '' SetText (0,  )'') = send_error
   \<and> fst (setText quiet_env init_state ''0'' []) = Inr ()"
proof -
  have h1: "CHR ''('' \<notin> set '' SetText ''" by simp
  have h2: "lower (strip '' SetText '') = ''settext''" by code_simp
  have h3: "CHR '','' \<notin> set ''0''" by simp
  have h4: "blank ''  ''" by (simp add: isspace_def)
  have h5: "CHR '')'' \<notin> set []" by simp
  have e: "LCD1602 quiet_env \<and> (\<forall>c. \<not> lcd_raises quiet_env c)"
    by (simp add: quiet_env_def)
  have "fst (handle_command quiet_env init_state
          ('' SetText '' @ CHR ''('' # ''0'' @ CHR '','' # ''  '' @ CHR '')'' # [])) = send_error"
    and s: "fst (setText quiet_env (init_state :: int state) ''0'' []) = Inr ()"
    using setText_empty_text_rejected [OF h1 h2 h3 h4 h5, of quiet_env init_state] e by blast+
  then have "fst (handle_command quiet_env init_state '' SetText (0,  )'') = send_error"
    by simp
  then show ?thesis
    using h1 h2 h3 h4 h5 s by (intro conjI)
qed



section \<open>The dispatcher's single failure response\<close>

lemma cmd_pinmode_error:
  assumes "parts = split_args args_str (- 1)"
    and "length parts \<noteq> 2 \<or> py_int env (parts ! 0) = None
         \<or> (\<exists>p. py_int env (parts ! 0) = Some p \<and> isl (fst (pinMode env st p (parts ! 1))))"
  shows "fst (cmd_pinmode env st args_str) = send_error"
  using assms
  by (auto simp: cmd_pinmode_def Let_def isl_def split: option.splits prod.splits sum.splits)

lemma cmd_digitalwrite_error:
  assumes "parts = split_args args_str (- 1)"
    and "length parts \<noteq> 2 \<or> py_int env (parts ! 0) = None
         \<or> (\<exists>p. py_int env (parts ! 0) = Some p \<and> isl (fst (digitalWrite env st p (parts ! 1))))"
  shows "fst (cmd_digitalwrite env st args_str) = send_error"
  using assms
  by (auto simp: cmd_digitalwrite_def Let_def isl_def split: option.splits prod.splits sum.splits)

lemma cmd_digitalread_error:
  assumes "parts = split_args args_str (- 1)"
    and "length parts \<noteq> 1 \<or> py_int env (parts ! 0) = None
         \<or> (\<exists>p. py_int env (parts ! 0) = Some p \<and> isl (fst (digitalRead env st p)))"
  shows "fst (cmd_digitalread env st args_str) = send_error"
  using assms
  by (auto simp: cmd_digitalread_def Let_def isl_def split: option.splits prod.splits sum.splits)

lemma cmd_analogread_error:
  assumes "parts = split_args args_str (- 1)"
    and "length parts \<noteq> 1 \<or> py_int env (parts ! 0) = None
         \<or> (\<exists>p. py_int env (parts ! 0) = Some p \<and> isl (fst (analogRead env st p)))"
  shows "fst (cmd_analogread env st args_str) = send_error"
  using assms
  by (auto simp: cmd_analogread_def Let_def isl_def split: option.splits prod.splits sum.splits)

lemma cmd_analogwrite_error:
  assumes "parts = split_args args_str (- 1)"
    and "length parts \<noteq> 2 \<or> py_int env (parts ! 0) = None \<or> py_int env (parts ! 1) = None
         \<or> (\<exists>p v. py_int env (parts ! 0) = Some p \<and> py_int env (parts ! 1) = Some v
                \<and> isl (fst (analogWrite env st p v)))"
  shows "fst (cmd_analogwrite env st args_str) = send_error"
  using assms
  by (auto simp: cmd_analogwrite_def Let_def isl_def split: option.splits prod.splits sum.splits)

lemma cmd_ultrasonicread_error:
  assumes "parts = split_args args_str (- 1)"
    and "length parts \<noteq> 1 \<or> py_int env (parts ! 0) = None
         \<or> (\<exists>p. py_int env (parts ! 0) = Some p \<and> isl (fst (ultrasonicRead env st p)))"
  shows "fst (cmd_ultrasonicread env st args_str) = send_error"
  using assms
  by (auto simp: cmd_ultrasonicread_def Let_def isl_def split: option.splits prod.splits sum.splits)

lemma setText_unknown_bus:
  assumes "\<not> (lower b = ''0'' \<or> lower b = ''i2c0'' \<or> lower b = ''1'' \<or> lower b = ''i2c1'')"
  shows "fst (setText env st b text) = Inl UNKNOWN_I2C_BUS"
  using assms by (simp add: setText_def Let_def)

lemma cmd_settext_error:
  assumes "parts = split_args args_str 1"
    and "length parts \<noteq> 2 \<or> isl (fst (setText env st (lower (parts ! 0)) (parts ! 1)))"
  shows "fst (cmd_settext env st args_str) = send_error"
  using assms
  by (auto simp: cmd_settext_def Let_def isl_def split: option.splits prod.splits sum.splits)

lemma cmd_setrgb_error:
  assumes "parts = split_args args_str (- 1)"
    and "length parts \<noteq> 4 \<or> py_int env (parts ! 1) = None \<or> py_int env (parts ! 2) = None
         \<or> py_int env (parts ! 3) = None
         \<or> (\<exists>r g b. py_int env (parts ! 1) = Some r \<and> py_int env (parts ! 2) = Some g
                \<and> py_int env (parts ! 3) = Some b
                \<and> isl (fst (setRGB env st (lower (parts ! 0)) r g b)))"
  shows "fst (cmd_setrgb env st args_str) = send_error"
  using assms
  by (auto simp: cmd_setrgb_def Let_def isl_def split: option.splits prod.splits sum.splits)

lemma cmd_dhtread_error:
  assumes "parts = split_args args_str (- 1)"
    and "length parts \<noteq> 2 \<or> py_int env (parts ! 0) = None \<or> py_int env (parts ! 1) = None
         \<or> (\<exists>p t. py_int env (parts ! 0) = Some p \<and> py_int env (parts ! 1) = Some t
                \<and> isl (fst (dhtRead env st p t)))"
  shows "fst (cmd_dhtread env st args_str) = send_error"
  using assms
  by (auto simp: cmd_dhtread_def Let_def isl_def split: option.splits prod.splits sum.splits)

lemma handle_command_eq:
  assumes "parse_call line = Some (name, args_str)"
  shows "handle_command env st line =
       (
        if lower name = ''pinmode'' then cmd_pinmode env st args_str
        else         if lower name = ''digitalwrite'' then cmd_digitalwrite env st args_str
        else         if lower name = ''digitalread'' then cmd_digitalread env st args_str
        else         if lower name = ''analogread'' then cmd_analogread env st args_str
        else         if lower name = ''analogwrite'' then cmd_analogwrite env st args_str
        else         if lower name = ''ultrasonicread'' then cmd_ultrasonicread env st args_str
        else         if lower name = ''settext'' then cmd_settext env st args_str
        else         if lower name = ''setrgb'' then cmd_setrgb env st args_str
        else         if lower name = ''dhtread'' then cmd_dhtread env st args_str
        else (send_error, st))"
proof (cases "name = []")
  case True
  then show ?thesis
    using assms by (simp add: handle_command_def lower_def)
next
  case False
  then show ?thesis
    using assms by (simp add: handle_command_def Let_def)
qed

lemma arity_cases:
  "arity cmd = None \<or> cmd = ''pinmode'' \<or> cmd = ''digitalwrite'' \<or> cmd = ''digitalread''
   \<or> cmd = ''analogread'' \<or> cmd = ''analogwrite'' \<or> cmd = ''ultrasonicread''
   \<or> cmd = ''settext'' \<or> cmd = ''setrgb'' \<or> cmd = ''dhtread''"
  by (simp add: arity_def)

lemma arity_None:
  assumes "arity cmd = None"
  shows "cmd \<noteq> ''pinmode''" "cmd \<noteq> ''digitalwrite''" "cmd \<noteq> ''digitalread''"
    "cmd \<noteq> ''analogread''" "cmd \<noteq> ''analogwrite''" "cmd \<noteq> ''ultrasonicread''"
    "cmd \<noteq> ''settext''" "cmd \<noteq> ''setrgb''" "cmd \<noteq> ''dhtread''"
  using assms by (auto simp: arity_def split: if_splits)

lemma dispatch_error_aux:
  assumes p: "parse_call line = Some (name, args_str)"
    and c: "cmd = lower name"
    and parts: "parts = pieces cmd args_str"
    and bad: "arity cmd = None \<or> arity cmd \<noteq> Some (length parts)
       \<or> (\<exists>i \<in> set (int_args cmd). i < length parts \<and> py_int env (parts ! i) = None)
       \<or> adapter_raises env st cmd parts"
  shows "fst (handle_command env st line) = send_error"
proof -
  note hc = handle_command_eq [OF p, of env st]
  consider (unknown) "arity cmd = None"
    | (pinmode) "cmd = ''pinmode''"
    | (digitalwrite) "cmd = ''digitalwrite''"
    | (digitalread) "cmd = ''digitalread''"
    | (analogread) "cmd = ''analogread''"
    | (analogwrite) "cmd = ''analogwrite''"
    | (ultrasonicread) "cmd = ''ultrasonicread''"
    | (settext) "cmd = ''settext''"
    | (setrgb) "cmd = ''setrgb''"
    | (dhtread) "cmd = ''dhtread''"
    using arity_cases [of cmd] by (elim disjE) simp_all
  then show ?thesis
  proof cases
    case unknown
    then show ?thesis
      using hc arity_None [OF unknown] c by simp
  next
    case pinmode
    have ln: "lower name = ''pinmode''"
      using c pinmode by simp
    have h: "handle_command env st line = cmd_pinmode env st args_str"
      using hc ln by simp
    have pt: "parts = split_args args_str (- 1)"
      using parts pinmode by (simp add: pieces_def)
    show ?thesis
      unfolding h
      by (rule cmd_pinmode_error [OF pt])
        (use bad pinmode in \<open>auto simp: arity_def int_args_def adapter_raises_def
           split: option.splits\<close>)
  next
    case digitalwrite
    have ln: "lower name = ''digitalwrite''"
      using c digitalwrite by simp
    have h: "handle_command env st line = cmd_digitalwrite env st args_str"
      using hc ln by simp
    have pt: "parts = split_args args_str (- 1)"
      using parts digitalwrite by (simp add: pieces_def)
    show ?thesis
      unfolding h
      by (rule cmd_digitalwrite_error [OF pt])
        (use bad digitalwrite in \<open>auto simp: arity_def int_args_def adapter_raises_def
           split: option.splits\<close>)
  next
    case digitalread
    have ln: "lower name = ''digitalread''"
      using c digitalread by simp
    have h: "handle_command env st line = cmd_digitalread env st args_str"
      using hc ln by simp
    have pt: "parts = split_args args_str (- 1)"
      using parts digitalread by (simp add: pieces_def)
    show ?thesis
      unfolding h
      by (rule cmd_digitalread_error [OF pt])
        (use bad digitalread in \<open>auto simp: arity_def int_args_def adapter_raises_def
           split: option.splits\<close>)
  next
    case analogread
    have ln: "lower name = ''analogread''"
      using c analogread by simp
    have h: "handle_command env st line = cmd_analogread env st args_str"
      using hc ln by simp
    have pt: "parts = split_args args_str (- 1)"
      using parts analogread by (simp add: pieces_def)
    show ?thesis
      unfolding h
      by (rule cmd_analogread_error [OF pt])
        (use bad analogread in \<open>auto simp: arity_def int_args_def adapter_raises_def
           split: option.splits\<close>)
  next
    case analogwrite
    have ln: "lower name = ''analogwrite''"
      using c analogwrite by simp
    have h: "handle_command env st line = cmd_analogwrite env st args_str"
      using hc ln by simp
    have pt: "parts = split_args args_str (- 1)"
      using parts analogwrite by (simp add: pieces_def)
    show ?thesis
      unfolding h
      by (rule cmd_analogwrite_error [OF pt])
        (use bad analogwrite in \<open>auto simp: arity_def int_args_def adapter_raises_def
           split: option.splits\<close>)
  next
    case ultrasonicread
    have ln: "lower name = ''ultrasonicread''"
      using c ultrasonicread by simp
    have h: "handle_command env st line = cmd_ultrasonicread env st args_str"
      using hc ln by simp
    have pt: "parts = split_args args_str (- 1)"
      using parts ultrasonicread by (simp add: pieces_def)
    show ?thesis
      unfolding h
      by (rule cmd_ultrasonicread_error [OF pt])
        (use bad ultrasonicread in \<open>auto simp: arity_def int_args_def adapter_raises_def
           split: option.splits\<close>)
  next
    case settext
    have ln: "lower name = ''settext''"
      using c settext by simp
    have h: "handle_command env st line = cmd_settext env st args_str"
      using hc ln by simp
    have pt: "parts = split_args args_str (1)"
      using parts settext by (simp add: pieces_def)
    show ?thesis
      unfolding h
      by (rule cmd_settext_error [OF pt])
        (use bad settext in \<open>auto simp: arity_def int_args_def adapter_raises_def
           split: option.splits\<close>)
  next
    case setrgb
    have ln: "lower name = ''setrgb''"
      using c setrgb by simp
    have h: "handle_command env st line = cmd_setrgb env st args_str"
      using hc ln by simp
    have pt: "parts = split_args args_str (- 1)"
      using parts setrgb by (simp add: pieces_def)
    show ?thesis
      unfolding h
      by (rule cmd_setrgb_error [OF pt])
        (use bad setrgb in \<open>auto simp: arity_def int_args_def adapter_raises_def
           split: option.splits\<close>)
  next
    case dhtread
    have ln: "lower name = ''dhtread''"
      using c dhtread by simp
    have h: "handle_command env st line = cmd_dhtread env st args_str"
      using hc ln by simp
    have pt: "parts = split_args args_str (- 1)"
      using parts dhtread by (simp add: pieces_def)
    show ?thesis
      unfolding h
      by (rule cmd_dhtread_error [OF pt])
        (use bad dhtread in \<open>auto simp: arity_def int_args_def adapter_raises_def
           split: option.splits\<close>)
  qed
qed

text \<open>
  Claim C1. For every input line, device context and collaborator behaviour: when the line
  does not parse as a call, or it parses and its lower-cased name is not a recognized
  command, or the number of argument pieces is not the one the command takes, or a piece in
  an integer position is rejected by \<open>int\<close>, or the adapter operation invoked on the pieces
  raises, then the text written to the output stream is the error line, which is the
  literal \<open>error\<close> followed by a line feed.
\<close>

theorem handle_command_error:
  "(parse_call line = None \<longrightarrow> fst (handle_command env st line) = send_error)
   \<and> (\<forall>name args_str cmd parts.
         parse_call line = Some (name, args_str) \<and> cmd = lower name
         \<and> parts = pieces cmd args_str \<longrightarrow>
           (arity cmd = None \<longrightarrow> fst (handle_command env st line) = send_error)
         \<and> (arity cmd \<noteq> Some (length parts) \<longrightarrow>
              fst (handle_command env st line) = send_error)
         \<and> ((\<exists>i \<in> set (int_args cmd). i < length parts \<and> py_int env (parts ! i) = None) \<longrightarrow>
              fst (handle_command env st line) = send_error)
         \<and> (arity cmd = Some (length parts) \<and> adapter_raises env st cmd parts \<longrightarrow>
              fst (handle_command env st line) = send_error))
   \<and> send_error = ''error'' @ [CHR 0x0A]"
proof (intro conjI allI impI)
  assume "parse_call line = None"
  then show "fst (handle_command env st line) = send_error"
    by (simp add: handle_command_def)
next
  show "send_error = ''error'' @ [CHR 0x0A]"
    by (simp add: send_error_def)
next
  fix name args_str cmd parts
  assume a: "parse_call line = Some (name, args_str) \<and> cmd = lower name
         \<and> parts = pieces cmd args_str"
  note aux = dispatch_error_aux [of line name args_str cmd parts env st]
  {
    assume "arity cmd = None"
    then show "fst (handle_command env st line) = send_error"
      using aux a by blast
  next
    assume "arity cmd \<noteq> Some (length parts)"
    then show "fst (handle_command env st line) = send_error"
      using aux a by blast
  next
    assume "\<exists>i \<in> set (int_args cmd). i < length parts \<and> py_int env (parts ! i) = None"
    then show "fst (handle_command env st line) = send_error"
      using aux a by blast
  next
    assume "arity cmd = Some (length parts) \<and> adapter_raises env st cmd parts"
    then show "fst (handle_command env st line) = send_error"
      using aux a by blast
  }
qed

theorem handle_command_error_witness:
  "parse_call ''foo'' = None
   \<and> fst (handle_command quiet_env init_state ''foo'') = ''error'' @ [CHR 0x0A]
   \<and> arity (lower ''unknownCmd'') = None
   \<and> fst (handle_command quiet_env init_state ''unknownCmd(1)'') = ''error'' @ [CHR 0x0A]
   \<and> arity (lower ''pinMode'') \<noteq> Some (length (pieces ''pinmode'' ''16''))
   \<and> fst (handle_command quiet_env init_state ''pinMode(16)'') = ''error'' @ [CHR 0x0A]
   \<and> py_int quiet_env ''x'' = None
   \<and> fst (handle_command quiet_env init_state ''digitalRead(x)'') = ''error'' @ [CHR 0x0A]
   \<and> adapter_raises quiet_env init_state ''pinmode'' [''16'', ''BOGUS'']
   \<and> fst (handle_command quiet_env init_state ''pinMode(16,BOGUS)'') = ''error'' @ [CHR 0x0A]"
proof -
  let ?st = "init_state :: int state"
  have se: "send_error = ''error'' @ [CHR 0x0A]"
    by (rule handle_command_error [THEN conjunct2, THEN conjunct2])
  have p0: "parse_call ''foo'' = None"
    by code_simp
  have r0: "fst (handle_command quiet_env ?st ''foo'') = send_error"
    by (rule handle_command_error [THEN conjunct1, THEN mp, OF p0])
  have p1: "parse_call ''unknownCmd(1)'' = Some (''unknownCmd'', ''1'')
      \<and> lower ''unknownCmd'' = lower ''unknownCmd''
      \<and> pieces (lower ''unknownCmd'') ''1'' = pieces (lower ''unknownCmd'') ''1''"
    by code_simp
  have a1: "arity (lower ''unknownCmd'') = None"
    by code_simp
  have r1: "fst (handle_command quiet_env ?st ''unknownCmd(1)'') = send_error"
    by (rule handle_command_error [THEN conjunct2, THEN conjunct1, rule_format, OF p1,
          THEN conjunct1, THEN mp, OF a1])
  have p2: "parse_call ''pinMode(16)'' = Some (''pinMode'', ''16'')
      \<and> ''pinmode'' = lower ''pinMode''
      \<and> [''16''] = pieces ''pinmode'' ''16''"
    by code_simp
  have a2: "arity ''pinmode'' \<noteq> Some (length [''16''])"
    by code_simp
  have r2: "fst (handle_command quiet_env ?st ''pinMode(16)'') = send_error"
    by (rule handle_command_error [THEN conjunct2, THEN conjunct1, rule_format, OF p2,
          THEN conjunct2, THEN conjunct1, THEN mp, OF a2])
  have p3: "parse_call ''digitalRead(x)'' = Some (''digitalRead'', ''x'')
      \<and> ''digitalread'' = lower ''digitalRead''
      \<and> [''x''] = pieces ''digitalread'' ''x''"
    by code_simp
  have x: "py_int quiet_env ''x'' = None"
    by code_simp
  have a3: "\<exists>i \<in> set (int_args ''digitalread''). i < length [''x'']
      \<and> py_int quiet_env ([''x''] ! i) = None"
    using x by (simp add: int_args_def)
  have r3: "fst (handle_command quiet_env ?st ''digitalRead(x)'') = send_error"
    by (rule handle_command_error [THEN conjunct2, THEN conjunct1, rule_format, OF p3,
          THEN conjunct2, THEN conjunct2, THEN conjunct1, THEN mp, OF a3])
  have p4: "parse_call ''pinMode(16,BOGUS)'' = Some (''pinMode'', ''16,BOGUS'')
      \<and> ''pinmode'' = lower ''pinMode''
      \<and> [''16'', ''BOGUS''] = pieces ''pinmode'' ''16,BOGUS''"
    by code_simp
  have ar: "adapter_raises quiet_env ?st ''pinmode'' [''16'', ''BOGUS'']"
    by code_simp
  have a4: "arity ''pinmode'' = Some (length [''16'', ''BOGUS''])
      \<and> adapter_raises quiet_env ?st ''pinmode'' [''16'', ''BOGUS'']"
    using ar by (simp add: arity_def)
  have r4: "fst (handle_command quiet_env ?st ''pinMode(16,BOGUS)'') = send_error"
    by (rule handle_command_error [THEN conjunct2, THEN conjunct1, rule_format, OF p4,
          THEN conjunct2, THEN conjunct2, THEN conjunct2, THEN mp, OF a4])
  have a2': "arity (lower ''pinMode'') \<noteq> Some (length (pieces ''pinmode'' ''16''))"
    by code_simp
  show ?thesis
    using p0 r0 a1 r1 a2' r2 x r3 ar r4 unfolding se by (intro conjI)
qed

end
